theory Spec2Isabelle
  imports Main "HOL-Library.Word"
begin

unbundle bit_operations_syntax

section \<open>JavaScript strings\<close>

text \<open>
  A JavaScript string is a sequence of UTF-16 code units. String literals of the
  source are written \<open>js ''...''\<close>.
\<close>

type_synonym code_unit = "16 word"
type_synonym jsstring = "code_unit list"

abbreviation js :: "string \<Rightarrow> jsstring" where
  "js s \<equiv> map of_char s"

text \<open>\<open>Array.prototype.join\<close> on an array of strings.\<close>

fun join :: "jsstring \<Rightarrow> jsstring list \<Rightarrow> jsstring" where
  "join sep [] = []"
| "join sep [x] = x"
| "join sep (x # y # ys) = x @ sep @ join sep (y # ys)"

datatype error =
    URIError
  | MvError (msg: jsstring) (code: jsstring)

section \<open>The built-ins \<open>encodeURIComponent\<close> and \<open>unescape\<close>\<close>

text \<open>
  \<open>parseMIME\<close> transcodes its input with \<open>unescape(encodeURIComponent(rawText))\<close>.
  Both are built-ins of the language; they are modelled after ECMA-262
  (\<open>Encode\<close>, \<open>CodePointAt\<close>, and \<open>unescape\<close> of Annex B).
\<close>

text \<open>The unescaped set of \<open>encodeURIComponent\<close>: ASCII word characters and \<open>-.!~*'()\<close>.\<close>

definition unescapedSet :: "code_unit \<Rightarrow> bool" where
  "unescapedSet c \<longleftrightarrow>
     (0x41 \<le> c \<and> c \<le> 0x5A) \<or> (0x61 \<le> c \<and> c \<le> 0x7A) \<or> (0x30 \<le> c \<and> c \<le> 0x39) \<or>
     c = 0x5F \<or> c = 0x2D \<or> c = 0x2E \<or> c = 0x21 \<or> c = 0x7E \<or> c = 0x2A \<or>
     c = 0x27 \<or> c = 0x28 \<or> c = 0x29"

definition is_leading_surrogate :: "code_unit \<Rightarrow> bool" where
  "is_leading_surrogate c \<longleftrightarrow> 0xD800 \<le> c \<and> c \<le> 0xDBFF"

definition is_trailing_surrogate :: "code_unit \<Rightarrow> bool" where
  "is_trailing_surrogate c \<longleftrightarrow> 0xDC00 \<le> c \<and> c \<le> 0xDFFF"

definition UTF16SurrogatePairToCodePoint :: "code_unit \<Rightarrow> code_unit \<Rightarrow> nat" where
  "UTF16SurrogatePairToCodePoint lead trail =
     (unat lead - 0xD800) * 0x400 + (unat trail - 0xDC00) + 0x10000"

text \<open>The UTF-8 transformation of a code point, as a list of octets.\<close>

definition utf8_octets :: "nat \<Rightarrow> nat list" where
  "utf8_octets cp =
     (if cp < 0x80 then [cp]
      else if cp < 0x800 then [0xC0 + cp div 0x40, 0x80 + cp mod 0x40]
      else if cp < 0x10000 then
        [0xE0 + cp div 0x1000, 0x80 + (cp div 0x40) mod 0x40, 0x80 + cp mod 0x40]
      else
        [0xF0 + cp div 0x40000, 0x80 + (cp div 0x1000) mod 0x40,
         0x80 + (cp div 0x40) mod 0x40, 0x80 + cp mod 0x40])"

text \<open>An uppercase hexadecimal digit, and an octet as \<open>%XX\<close>.\<close>

definition hex_digit :: "nat \<Rightarrow> code_unit" where
  "hex_digit d = (if d < 10 then of_nat (0x30 + d) else of_nat (0x41 + (d - 10)))"

definition percent_octet :: "nat \<Rightarrow> jsstring" where
  "percent_octet n = [0x25, hex_digit (n div 16), hex_digit (n mod 16)]"

fun encodeURIComponent :: "jsstring \<Rightarrow> error + jsstring" where
  "encodeURIComponent [] = Inr []"
| "encodeURIComponent (c # cs) =
     (if unescapedSet c then
        (case encodeURIComponent cs of Inl e \<Rightarrow> Inl e | Inr r \<Rightarrow> Inr (c # r))
      else if is_trailing_surrogate c then Inl URIError
      else if is_leading_surrogate c then
        (case cs of
           [] \<Rightarrow> Inl URIError
         | d # ds \<Rightarrow>
             if is_trailing_surrogate d then
               (case encodeURIComponent ds of
                  Inl e \<Rightarrow> Inl e
                | Inr r \<Rightarrow>
                    Inr (concat (map percent_octet
                           (utf8_octets (UTF16SurrogatePairToCodePoint c d))) @ r))
             else Inl URIError)
      else
        (case encodeURIComponent cs of
           Inl e \<Rightarrow> Inl e
         | Inr r \<Rightarrow> Inr (concat (map percent_octet (utf8_octets (unat c))) @ r)))"

text \<open>The value of a hexadecimal digit of either case, if it is one.\<close>

definition hex_value :: "code_unit \<Rightarrow> nat option" where
  "hex_value c =
     (if 0x30 \<le> c \<and> c \<le> 0x39 then Some (unat c - 0x30)
      else if 0x41 \<le> c \<and> c \<le> 0x46 then Some (unat c - 0x41 + 10)
      else if 0x61 \<le> c \<and> c \<le> 0x66 then Some (unat c - 0x61 + 10)
      else None)"

fun parse_hex :: "nat \<Rightarrow> jsstring \<Rightarrow> nat option" where
  "parse_hex acc [] = Some acc"
| "parse_hex acc (c # cs) =
     (case hex_value c of None \<Rightarrow> None | Some d \<Rightarrow> parse_hex (16 * acc + d) cs)"

fun unescape :: "jsstring \<Rightarrow> jsstring" where
  "unescape [] = []"
| "unescape (c # cs) =
     (if c = 0x25 then
        (if 5 \<le> length cs \<and> hd cs = 0x75 then
           (case parse_hex 0 (take 4 (tl cs)) of
              Some n \<Rightarrow> of_nat n # unescape (drop 5 cs)
            | None \<Rightarrow> c # unescape cs)
         else if 2 \<le> length cs then
           (case parse_hex 0 (take 2 cs) of
              Some n \<Rightarrow> of_nat n # unescape (drop 2 cs)
            | None \<Rightarrow> c # unescape cs)
         else c # unescape cs)
      else c # unescape cs)"

text \<open>The transcoding step of \<open>parseMIME\<close> (line 29).\<close>

definition pseudo_binary :: "jsstring \<Rightarrow> error + jsstring" where
  "pseudo_binary rawText =
     (case encodeURIComponent rawText of Inl e \<Rightarrow> Inl e | Inr s \<Rightarrow> Inr (unescape s))"

section \<open>The part tree of the structural parser\<close>

text \<open>
  The parser (\<open>mailreader\<close>) delivers an array of parts. The code reads three
  properties of a part: \<open>type\<close>, \<open>filename\<close> and \<open>content\<close>, where the content is a
  string, a byte array or an array of parts (\<open>Array.isArray(part.content)\<close>).
\<close>

datatype 'p part_content = Str jsstring | Buf "8 word list" | Arr "'p list"

datatype part =
  Part (ptype: jsstring) (filename: "jsstring option") (pcontent: "part part_content")

text \<open>\<open>filterBodyParts\<close> (lines 87 to 97); \<open>result.push\<close> appends to the accumulator.\<close>

fun filterBodyParts :: "part list \<Rightarrow> jsstring \<Rightarrow> part list \<Rightarrow> part list" where
  "filterBodyParts [] type result = result"
| "filterBodyParts (Part ty fn c # bodyParts) type result =
     filterBodyParts bodyParts type
       (if ty = type then result @ [Part ty fn c]
        else (case c of
                Arr cs \<Rightarrow> filterBodyParts cs type result
              | _ \<Rightarrow> result))"

section \<open>Collaborators and handlers\<close>

text \<open>
  The functions imported from other modules are parameters of the model. The byte
  count, the conversions and the serializer are whatever the collaborator computes;
  \<open>toString\<close> is the string conversion that \<open>Array.prototype.join\<close> applies to an
  element that is not a string; \<open>getHash\<close> gives the identifier of the i-th call;
  \<open>mailreader_parse\<close> is the array handed to the parser's callback (\<open>None\<close> when it is
  null or undefined).
\<close>

datatype mime_node =
  MimeNode (contentType: "jsstring option") (node_filename: "jsstring option")
    (headers: "(jsstring \<times> jsstring) list") (node_content: "jsstring option")
    (childNodes: "mime_node list")

record collab =
  mailreader_parse :: "jsstring \<Rightarrow> part list option"
  sanitizeHTML :: "jsstring \<Rightarrow> jsstring"
  text2autoLinkHtml :: "part part_content \<Rightarrow> jsstring"
  html2text :: "part part_content \<Rightarrow> jsstring"
  encodeHTML :: "jsstring option \<Rightarrow> jsstring"
  ab2str :: "8 word list option \<Rightarrow> jsstring"
  toString :: "part part_content \<Rightarrow> jsstring"
  byteCount :: "jsstring \<Rightarrow> nat"
  getHash :: "nat \<Rightarrow> jsstring"
  build :: "mime_node \<Rightarrow> jsstring"

text \<open>
  The handlers object: two callbacks and the property \<open>noEvent\<close>. A callback may
  change the object (and anything else it closes over), so the handlers carry a state
  \<open>'s\<close>, which each callback updates and from which \<open>noEvent\<close> is read.
\<close>

record 's handlers =
  noEvent :: "'s \<Rightarrow> bool"
  onMessage :: "jsstring \<Rightarrow> 's \<Rightarrow> 's"
  onAttachment :: "part \<Rightarrow> 's \<Rightarrow> 's"

text \<open>A run records every callback invocation, in order, beside the handlers' state.\<close>

datatype event = OnMessage jsstring | OnAttachment part

type_synonym 's run = "event list \<times> 's"

definition call_onMessage :: "'s handlers \<Rightarrow> jsstring \<Rightarrow> 's run \<Rightarrow> 's run" where
  "call_onMessage h body r = (fst r @ [OnMessage body], onMessage h body (snd r))"

definition call_onAttachment :: "'s handlers \<Rightarrow> part \<Rightarrow> 's run \<Rightarrow> 's run" where
  "call_onAttachment h p r = (fst r @ [OnAttachment p], onAttachment h p (snd r))"

section \<open>Decoding\<close>

text \<open>A string content as it is, any other content through the string conversion.\<close>

definition content_string :: "collab \<Rightarrow> part part_content \<Rightarrow> jsstring" where
  "content_string c x = (case x of Str s \<Rightarrow> s | _ \<Rightarrow> toString c x)"

text \<open>\<open>part.content.buffer\<close>: the bytes of a byte array, undefined otherwise.\<close>

definition buffer :: "part part_content \<Rightarrow> 8 word list option" where
  "buffer x = (case x of Buf b \<Rightarrow> Some b | _ \<Rightarrow> None)"

text \<open>Lines 59 and 60: the attachment part as it is handed to \<open>onAttachment\<close>.\<close>

definition prepare_attachment :: "collab \<Rightarrow> part \<Rightarrow> part" where
  "prepare_attachment c p =
     Part (ptype p) (Some (encodeHTML c (filename p))) (Str (ab2str c (buffer (pcontent p))))"

text \<open>Lines 32 to 55: the body selection.\<close>

definition select_body :: "collab \<Rightarrow> 's handlers \<Rightarrow> part list \<Rightarrow> jsstring \<Rightarrow> 's run \<Rightarrow> 's run" where
  "select_body c h parsed encoding r =
     (if encoding = js ''html'' then
        (let htmlParts = filterBodyParts parsed (js ''html'') [] in
         if htmlParts \<noteq> [] then
           call_onMessage h
             (sanitizeHTML c
                (join ([0x0A] @ js ''<hr>'' @ [0x0A])
                   (map (\<lambda>part. content_string c (pcontent part)) htmlParts))) r
         else
           (let textParts = filterBodyParts parsed (js ''text'') [] in
            if textParts \<noteq> [] then
              call_onMessage h
                (join (js ''<hr>'')
                   (map (\<lambda>part. text2autoLinkHtml c (pcontent part)) textParts)) r
            else r))
      else if encoding = js ''text'' then
        (let textParts = filterBodyParts parsed (js ''text'') [] in
         if textParts \<noteq> [] then
           call_onMessage h
             (join [0x0A, 0x0A]
                (map (\<lambda>part. content_string c (pcontent part)) textParts)) r
         else
           (let htmlParts = filterBodyParts parsed (js ''html'') [] in
            if htmlParts \<noteq> [] then
              call_onMessage h
                (join [0x0A, 0x0A]
                   (map (\<lambda>part. html2text c (pcontent part)) htmlParts)) r
            else r))
      else r)"

text \<open>Lines 56 to 62: the attachments, in the order \<open>filterBodyParts\<close> found them.\<close>

definition emit_attachments :: "collab \<Rightarrow> 's handlers \<Rightarrow> part list \<Rightarrow> 's run \<Rightarrow> 's run" where
  "emit_attachments c h parsed r =
     fold (\<lambda>part. call_onAttachment h (prepare_attachment c part))
       (filterBodyParts parsed (js ''attachment'') []) r"

text \<open>Lines 30 to 68: the callback given to \<open>mailreader.parse\<close>.\<close>

definition parse_callback ::
  "collab \<Rightarrow> 's handlers \<Rightarrow> part list option \<Rightarrow> jsstring \<Rightarrow> 's run \<Rightarrow> 's run" where
  "parse_callback c h parsed encoding r =
     (let r1 = (case parsed of
                  None \<Rightarrow> r
                | Some ps \<Rightarrow>
                    if 0 < length ps
                    then emit_attachments c h ps (select_body c h ps encoding r)
                    else r)
      in if noEvent h (snd r1) then call_onMessage h [] r1 else r1)"

text \<open>
  \<open>parseMIME\<close>: a \<open>URIError\<close> of the transcoding rejects the promise before any callback;
  otherwise the parser is given the transcoded text and calls back once.
\<close>

definition parseMIME ::
  "collab \<Rightarrow> 's handlers \<Rightarrow> jsstring \<Rightarrow> jsstring \<Rightarrow> 's \<Rightarrow> error + 's run" where
  "parseMIME c h rawText encoding s =
     (case pseudo_binary rawText of
        Inl e \<Rightarrow> Inl e
      | Inr raw \<Rightarrow> Inr (parse_callback c h (mailreader_parse c raw) encoding ([], s)))"

text \<open>Substring search and prefix test for the two regular expressions.\<close>

fun starts_with :: "jsstring \<Rightarrow> jsstring \<Rightarrow> bool" where
  "starts_with s [] = True"
| "starts_with [] (p # ps) = False"
| "starts_with (x # xs) (p # ps) = (x = p \<and> starts_with xs ps)"

fun has_substring :: "jsstring \<Rightarrow> jsstring \<Rightarrow> bool" where
  "has_substring [] p = starts_with [] p"
| "has_substring (x # xs) p = (starts_with (x # xs) p \<or> has_substring xs p)"

text \<open>The class \<open>\s\<close>: white space and line terminators.\<close>

definition is_whitespace :: "code_unit \<Rightarrow> bool" where
  "is_whitespace c \<longleftrightarrow>
     c = 0x09 \<or> c = 0x0A \<or> c = 0x0B \<or> c = 0x0C \<or> c = 0x0D \<or> c = 0x20 \<or> c = 0xA0 \<or>
     c = 0x1680 \<or> (0x2000 \<le> c \<and> c \<le> 0x200A) \<or> c = 0x2028 \<or> c = 0x2029 \<or>
     c = 0x202F \<or> c = 0x205F \<or> c = 0x3000 \<or> c = 0xFEFF"

text \<open>The test of line 19.\<close>

definition mime_header_test :: "jsstring \<Rightarrow> bool" where
  "mime_header_test rawText =
     list_ex (\<lambda>name. starts_with (dropWhile is_whitespace rawText) (js name @ js '':''))
       [''MIME-Version'', ''Content-Type'', ''Content-Transfer-Encoding'', ''From'',
        ''Date'', ''Content-Language'']"

text \<open>The test of line 76.\<close>

definition legacy_html_test :: "jsstring \<Rightarrow> bool" where
  "legacy_html_test rawText =
     list_ex (\<lambda>tag. has_substring rawText (js tag))
       [''</a>'', ''<br>'', ''</div>'', ''</p>'', ''</b>'', ''</u>'', ''</i>'', ''</ul>'',
        ''</li>'']"

definition parseInline ::
  "collab \<Rightarrow> 's handlers \<Rightarrow> jsstring \<Rightarrow> jsstring \<Rightarrow> 's \<Rightarrow> error + 's run" where
  "parseInline c h rawText encoding s =
     (if encoding = js ''html'' then
        Inr (call_onMessage h (text2autoLinkHtml c (Str rawText)) ([], s))
      else if legacy_html_test rawText then
        Inr (call_onMessage h (html2text c (Str rawText)) ([], s))
      else
        Inr (call_onMessage h rawText ([], s)))"

definition parseMessage ::
  "collab \<Rightarrow> 's handlers \<Rightarrow> jsstring \<Rightarrow> jsstring \<Rightarrow> 's \<Rightarrow> error + 's run" where
  "parseMessage c h rawText encoding s =
     (if mime_header_test rawText then parseMIME c h rawText encoding s
      else parseInline c h rawText encoding s)"

text \<open>The callback invocations of a decode call; none when the call is rejected.\<close>

definition invocations :: "error + 's run \<Rightarrow> event list" where
  "invocations res = (case res of Inl e \<Rightarrow> [] | Inr r \<Rightarrow> fst r)"

section \<open>Encoding\<close>

text \<open>
  The builders assemble a tree with the library class \<open>MimeBuilder\<close>. Of that class the
  model keeps what the builders put in: the content type given to the constructor, the
  file name option, the headers, the content and the children appended, in order.
\<close>

definition MimeBuilder :: "jsstring \<Rightarrow> mime_node" where
  "MimeBuilder ct = MimeNode (Some ct) None [] None []"

text \<open>\<open>parent.createChild(contentType, {filename})\<close> evaluates to the new child.\<close>

definition createChild :: "mime_node \<Rightarrow> jsstring option \<Rightarrow> jsstring option \<Rightarrow> mime_node" where
  "createChild parent ct fn = MimeNode ct fn [] None []"

fun set_header :: "jsstring \<Rightarrow> jsstring \<Rightarrow> (jsstring \<times> jsstring) list \<Rightarrow> (jsstring \<times> jsstring) list" where
  "set_header k v [] = [(k, v)]"
| "set_header k v ((k', v') # hs) =
     (if k' = k then (k, v) # filter (\<lambda>kv. fst kv \<noteq> k) hs else (k', v') # set_header k v hs)"

definition setHeader :: "(jsstring \<times> jsstring) list \<Rightarrow> mime_node \<Rightarrow> mime_node" where
  "setHeader kvs n =
     MimeNode (contentType n) (node_filename n)
       (fold (\<lambda>kv. set_header (fst kv) (snd kv)) kvs (headers n)) (node_content n) (childNodes n)"

definition addHeader :: "(jsstring \<times> jsstring) list \<Rightarrow> mime_node \<Rightarrow> mime_node" where
  "addHeader kvs n =
     MimeNode (contentType n) (node_filename n) (headers n @ kvs) (node_content n) (childNodes n)"

definition setContent :: "jsstring \<Rightarrow> mime_node \<Rightarrow> mime_node" where
  "setContent x n =
     MimeNode (contentType n) (node_filename n) (headers n) (Some x) (childNodes n)"

definition appendChild :: "mime_node \<Rightarrow> mime_node \<Rightarrow> mime_node" where
  "appendChild child n =
     MimeNode (contentType n) (node_filename n) (headers n) (node_content n)
       (childNodes n @ [child])"

text \<open>
  The argument objects of the builders. A property that may be left out is an option;
  sizes and the quota are integers.
\<close>

record attachment =
  attachment_name :: jsstring
  attachment_content :: jsstring
  attachment_size :: int

record compose_request =
  message :: "jsstring option"
  attachments :: "attachment list option"
  armored :: jsstring
  sender :: jsstring
  to :: "jsstring list"
  cc :: "jsstring list option"
  subject :: jsstring
  quota :: "int option"
  pgpMIME :: bool

text \<open>The test \<open>quota && (quotaSize > quota)\<close>: an absent or zero quota is falsy.\<close>

definition quota_exceeded :: "int option \<Rightarrow> int \<Rightarrow> bool" where
  "quota_exceeded q quotaSize = (case q of None \<Rightarrow> False | Some n \<Rightarrow> n \<noteq> 0 \<and> quotaSize > n)"

definition QuotaExceeded :: error where
  "QuotaExceeded = MvError (js ''Mail content exceeds quota limit.'') (js ''ENCRYPT_QUOTA_SIZE'')"

definition textMime :: "jsstring \<Rightarrow> mime_node" where
  "textMime m =
     setContent m
       (setHeader [(js ''content-transfer-encoding'', js ''quoted-printable'')]
          (MimeBuilder (js ''text/plain'')))"

text \<open>
  Lines 113 to 119 and 204 to 210; in the test \<open>if (message)\<close> an absent or empty
  string is falsy.
\<close>

definition add_message :: "collab \<Rightarrow> jsstring option \<Rightarrow> mime_node \<times> int \<Rightarrow> mime_node \<times> int" where
  "add_message c m st =
     (case m of
        None \<Rightarrow> st
      | Some s \<Rightarrow>
          if s \<noteq> [] then (appendChild (textMime s) (fst st), snd st + int (byteCount c s))
          else st)"

definition attachmentMime :: "attachment \<Rightarrow> mime_node" where
  "attachmentMime a =
     setContent (attachment_content a)
       (setHeader [(js ''content-transfer-encoding'', js ''base64''),
                   (js ''content-disposition'', js ''attachment'')]
          (createChild (MimeBuilder (js ''multipart/mixed'')) None (Some (attachment_name a))))"

text \<open>Lines 122 to 132: the loop over the attachments.\<close>

fun add_attachments :: "attachment list \<Rightarrow> mime_node \<times> int \<Rightarrow> mime_node \<times> int" where
  "add_attachments [] st = st"
| "add_attachments (a # as) st =
     add_attachments as (appendChild (attachmentMime a) (fst st), snd st + attachment_size a)"

text \<open>
  \<open>buildMail\<close> up to the quota test: the main node, \<open>quotaSize\<close> and \<open>hasAttachment\<close>.
\<close>

definition buildMail_assemble :: "collab \<Rightarrow> compose_request \<Rightarrow> (mime_node \<times> int) \<times> bool" where
  "buildMail_assemble c req =
     (let st = add_message c (message req) (MimeBuilder (js ''multipart/mixed''), 0)
      in case attachments req of
           None \<Rightarrow> (st, False)
         | Some as \<Rightarrow> if 0 < length as then (add_attachments as st, True) else (st, False))"

definition buildMail :: "collab \<Rightarrow> compose_request \<Rightarrow> error + jsstring option" where
  "buildMail c req =
     (let ((mainMessage, quotaSize), hasAttachment) = buildMail_assemble c req
      in if quota_exceeded (quota req) quotaSize then Inl QuotaExceeded
         else if hasAttachment \<or> pgpMIME req then Inr (Some (build c mainMessage))
         else Inr (message req))"

text \<open>\<open>buildPGPMail\<close> (lines 145 to 178).\<close>

definition mainContent :: jsstring where
  "mainContent = js ''This is an OpenPGP/MIME encrypted message (RFC 2440 and 3156)''"

definition pgpHeaderContent :: jsstring where
  "pgpHeaderContent = js ''Version: 1''"

definition pgpHeader :: mime_node where
  "pgpHeader =
     setContent pgpHeaderContent
       (setHeader [(js ''content-description'', js ''PGP/MIME version identification'')]
          (MimeBuilder (js ''application/pgp-encrypted'')))"

definition pgpArmored :: "jsstring \<Rightarrow> mime_node" where
  "pgpArmored arm =
     setContent arm
       (setHeader [(js ''content-description'', js ''OpenPGP encrypted message''),
                   (js ''content-disposition'',
                    js ''inline; filename='' @ [0x22] @ js ''encrypted.asc'' @ [0x22])]
          (MimeBuilder (js ''application/octet-stream; name='' @ [0x22] @ js ''encrypted.asc''
             @ [0x22])))"

definition buildPGPMail_assemble :: "collab \<Rightarrow> compose_request \<Rightarrow> mime_node \<times> int" where
  "buildPGPMail_assemble c req =
     (let quotaSize = 0;
          mainMessage = MimeBuilder (js ''multipart/encrypted; protocol='' @ [0x22]
                          @ js ''application/pgp-encrypted'' @ [0x22] @ js '';'');
          hdrs = [(js ''from'', sender req), (js ''to'', join (js '', '') (to req)),
                  (js ''subject'', subject req)];
          hdrs = (case cc req of None \<Rightarrow> hdrs | Some l \<Rightarrow> hdrs @ [(js ''cc'', join (js '', '') l)]);
          mainMessage = addHeader hdrs mainMessage;
          mainMessage = setContent mainContent mainMessage;
          quotaSize = quotaSize + int (byteCount c mainContent);
          quotaSize = quotaSize + int (byteCount c pgpHeaderContent);
          mainMessage = appendChild pgpHeader mainMessage;
          quotaSize = quotaSize + int (byteCount c (armored req));
          mainMessage = appendChild (pgpArmored (armored req)) mainMessage
      in (mainMessage, quotaSize))"

definition buildPGPMail :: "collab \<Rightarrow> compose_request \<Rightarrow> error + jsstring" where
  "buildPGPMail c req =
     (let (mainMessage, quotaSize) = buildPGPMail_assemble c req
      in if quota_exceeded (quota req) quotaSize then Inl QuotaExceeded
         else Inr (build c mainMessage))"

text \<open>\<open>buildTextMail\<close> (lines 180 to 194).\<close>

definition buildTextMail_assemble :: "collab \<Rightarrow> compose_request \<Rightarrow> mime_node \<times> int" where
  "buildTextMail_assemble c req =
     (let quotaSize = 0;
          mainMessage = addHeader [(js ''from'', sender req), (js ''to'', join (js '', '') (to req)),
                                   (js ''subject'', subject req)]
                          (MimeBuilder (js ''text/plain''));
          mainMessage = setContent (armored req) mainMessage;
          quotaSize = quotaSize + int (byteCount c (armored req))
      in (mainMessage, quotaSize))"

definition buildTextMail :: "collab \<Rightarrow> compose_request \<Rightarrow> error + jsstring" where
  "buildTextMail c req =
     (let (mainMessage, quotaSize) = buildTextMail_assemble c req
      in if quota_exceeded (quota req) quotaSize then Inl QuotaExceeded
         else Inr (build c mainMessage))"

text \<open>\<open>buildMailWithHeader\<close> (lines 196 to 231); \<open>i\<close> counts the calls of \<open>getHash\<close>.\<close>

definition attachmentMimeWithId :: "jsstring \<Rightarrow> attachment \<Rightarrow> mime_node" where
  "attachmentMimeWithId ident a =
     setContent (attachment_content a)
       (setHeader [(js ''content-transfer-encoding'', js ''base64''),
                   (js ''content-disposition'', js ''attachment''),
                   (js ''X-Attachment-Id'', ident),
                   (js ''Content-ID'', js ''<'' @ ident @ js ''>'')]
          (createChild (MimeBuilder (js ''multipart/mixed'')) None (Some (attachment_name a))))"

fun add_attachments_with_id ::
  "collab \<Rightarrow> nat \<Rightarrow> attachment list \<Rightarrow> mime_node \<times> int \<Rightarrow> mime_node \<times> int" where
  "add_attachments_with_id c i [] st = st"
| "add_attachments_with_id c i (a # as) st =
     add_attachments_with_id c (Suc i) as
       (appendChild (attachmentMimeWithId (js ''mv_'' @ getHash c i) a) (fst st),
        snd st + attachment_size a)"

definition buildMailWithHeader_assemble :: "collab \<Rightarrow> compose_request \<Rightarrow> mime_node \<times> int" where
  "buildMailWithHeader_assemble c req =
     (let mainMessage = addHeader [(js ''from'', sender req), (js ''to'', join (js '', '') (to req)),
                                   (js ''subject'', subject req)]
                          (MimeBuilder (js ''multipart/mixed''));
          st = add_message c (message req) (mainMessage, 0)
      in case attachments req of
           None \<Rightarrow> st
         | Some as \<Rightarrow> if 0 < length as then add_attachments_with_id c 0 as st else st)"

definition buildMailWithHeader :: "collab \<Rightarrow> compose_request \<Rightarrow> error + jsstring" where
  "buildMailWithHeader c req =
     (let (mainMessage, quotaSize) = buildMailWithHeader_assemble c req
      in if quota_exceeded (quota req) quotaSize then Inl QuotaExceeded
         else Inr (build c mainMessage))"

section \<open>Notions of the specification\<close>

text \<open>
  Narrowing a code unit to its low byte, as the specification words the transcoding:
  the code unit modulo 256.
\<close>

definition low_byte :: "code_unit \<Rightarrow> code_unit" where
  "low_byte c = c AND 0xFF"

definition narrow_to_low_bytes :: "jsstring \<Rightarrow> jsstring" where
  "narrow_to_low_bytes s = map low_byte s"

text \<open>
  Every part of a tree in depth-first order: a part, then the parts below it (when its
  content is an array), then its later siblings.
\<close>

fun all_parts :: "part list \<Rightarrow> part list" where
  "all_parts [] = []"
| "all_parts (Part ty fn c # ps) =
     Part ty fn c # (case c of Arr cs \<Rightarrow> all_parts cs | _ \<Rightarrow> []) @ all_parts ps"

definition is_container :: "part \<Rightarrow> bool" where
  "is_container p = (case pcontent p of Arr cs \<Rightarrow> True | _ \<Rightarrow> False)"

text \<open>The bodies given to \<open>onMessage\<close> and the parts given to \<open>onAttachment\<close>, in order.\<close>

fun messages :: "event list \<Rightarrow> jsstring list" where
  "messages [] = []"
| "messages (OnMessage b # es) = b # messages es"
| "messages (OnAttachment p # es) = messages es"

fun attachments_emitted :: "event list \<Rightarrow> part list" where
  "attachments_emitted [] = []"
| "attachments_emitted (OnMessage b # es) = attachments_emitted es"
| "attachments_emitted (OnAttachment p # es) = p # attachments_emitted es"

text \<open>
  The message bytes a mixed-mode builder counts: the byte count of a message that is
  present and not empty.
\<close>

definition message_bytes :: "collab \<Rightarrow> jsstring option \<Rightarrow> int" where
  "message_bytes c m =
     (case m of None \<Rightarrow> 0 | Some s \<Rightarrow> if s \<noteq> [] then int (byteCount c s) else 0)"

definition attachment_list :: "attachment list option \<Rightarrow> attachment list" where
  "attachment_list as = (case as of None \<Rightarrow> [] | Some l \<Rightarrow> l)"

text \<open>
  The code points of a string, as \<open>CodePointAt\<close> reads them: a surrogate pair is one code
  point, any other code unit is its own, and an unpaired surrogate is the \<open>URIError\<close>.
\<close>

fun code_points :: "jsstring \<Rightarrow> error + nat list" where
  "code_points [] = Inr []"
| "code_points (c # cs) =
     (if is_trailing_surrogate c then Inl URIError
      else if is_leading_surrogate c then
        (case cs of
           [] \<Rightarrow> Inl URIError
         | d # ds \<Rightarrow>
             if is_trailing_surrogate d then
               (case code_points ds of
                  Inl e \<Rightarrow> Inl e
                | Inr r \<Rightarrow> Inr (UTF16SurrogatePairToCodePoint c d # r))
             else Inl URIError)
      else (case code_points cs of Inl e \<Rightarrow> Inl e | Inr r \<Rightarrow> Inr (unat c # r)))"

text \<open>
  Reading UTF-8: a byte below 0x80 is a code point; a lead byte 110xxxxx, 1110xxxx or
  11110xxx takes one, two or three continuation bytes 10xxxxxx, and the payload bits
  together are the code point. Anything else is not UTF-8.
\<close>

definition continuation :: "nat \<Rightarrow> bool" where
  "continuation b \<longleftrightarrow> 0x80 \<le> b \<and> b < 0xC0"

fun utf8_decode :: "nat list \<Rightarrow> nat list option" where
  "utf8_decode [] = Some []"
| "utf8_decode (a # bs) =
     (if a < 0x80 then map_option (Cons a) (utf8_decode bs)
      else if 0xC0 \<le> a \<and> a < 0xE0 then
        (case bs of
           b # r \<Rightarrow>
             if continuation b
             then map_option (Cons ((a - 0xC0) * 0x40 + (b - 0x80))) (utf8_decode r)
             else None
         | _ \<Rightarrow> None)
      else if 0xE0 \<le> a \<and> a < 0xF0 then
        (case bs of
           b # c # r \<Rightarrow>
             if continuation b \<and> continuation c
             then map_option (Cons ((a - 0xE0) * 0x1000 + (b - 0x80) * 0x40 + (c - 0x80)))
                    (utf8_decode r)
             else None
         | _ \<Rightarrow> None)
      else if 0xF0 \<le> a \<and> a < 0xF8 then
        (case bs of
           b # c # d # r \<Rightarrow>
             if continuation b \<and> continuation c \<and> continuation d
             then map_option
                    (Cons ((a - 0xF0) * 0x40000 + (b - 0x80) * 0x1000 + (c - 0x80) * 0x40
                           + (d - 0x80)))
                    (utf8_decode r)
             else None
         | _ \<Rightarrow> None)
      else None)"

text \<open>
  The data model of the parts: a text or html part carries a string. The string of
  such a content is the content as it is.
\<close>

definition has_string :: "part \<Rightarrow> bool" where
  "has_string p = (case pcontent p of Str s \<Rightarrow> True | _ \<Rightarrow> False)"

definition string_of_content :: "part part_content \<Rightarrow> jsstring" where
  "string_of_content x = (case x of Str s \<Rightarrow> s | _ \<Rightarrow> [])"

section \<open>Sample collaborators\<close>

text \<open>
  The collaborators of \<open>lib/util\<close>, \<open>lib/lib-mvelo\<close>, \<open>lib/mail-reader\<close> and the
  serializer are not part of the module, and the theorems below hold for every choice
  of them. To run the model on concrete inputs, \<open>sample_collab\<close> gives one choice.
\<close>

text \<open>
  Modelled from the spec: \<open>html2text\<close> (``strip to plain text''), which is not in the
  module. This one drops every tag, from \<open><\<close> to the next \<open>>\<close>.
\<close>

fun strip_tags :: "bool \<Rightarrow> jsstring \<Rightarrow> jsstring" where
  "strip_tags in_tag [] = []"
| "strip_tags in_tag (c # cs) =
     (if in_tag then (if c = 0x3E then strip_tags False cs else strip_tags True cs)
      else (if c = 0x3C then strip_tags True cs else c # strip_tags False cs))"

text \<open>
  Modelled from the spec: \<open>byteCount\<close> (``the message/armored body's byte length''),
  which is not in the module. This one counts the octets of the UTF-8 encoding, which
  for a string of ASCII characters is the number of its code units.
\<close>

definition utf8_length :: "jsstring \<Rightarrow> nat" where
  "utf8_length s = (case pseudo_binary s of Inl e \<Rightarrow> 0 | Inr b \<Rightarrow> length b)"

text \<open>
  Modelled from the spec: one choice of all the collaborators, none of which is in the
  module; the parser delivers the tree given here.
\<close>

definition sample_collab :: "part list option \<Rightarrow> collab" where
  "sample_collab parsed =
     \<lparr> mailreader_parse = (\<lambda>raw. parsed),
       sanitizeHTML = (\<lambda>s. s),
       text2autoLinkHtml = string_of_content,
       html2text = (\<lambda>x. strip_tags False (string_of_content x)),
       encodeHTML = (\<lambda>fn. case fn of None \<Rightarrow> js ''undefined'' | Some s \<Rightarrow> s),
       ab2str = (\<lambda>b. case b of None \<Rightarrow> [] | Some bs \<Rightarrow> map ucast bs),
       toString = (\<lambda>x. []),
       byteCount = utf8_length,
       getHash = (\<lambda>i. replicate (Suc i) 0x61),
       build = (\<lambda>n. js ''MIME'') \<rparr>"

text \<open>
  Two handler objects. The first keeps \<open>noEvent\<close> set whatever is called; the state of
  the second is its \<open>noEvent\<close> property, which both callbacks clear.
\<close>

definition passive_handlers :: "bool \<Rightarrow> unit handlers" where
  "passive_handlers flag =
     \<lparr> noEvent = (\<lambda>s. flag), onMessage = (\<lambda>b s. s), onAttachment = (\<lambda>p s. s) \<rparr>"

definition clearing_handlers :: "bool handlers" where
  "clearing_handlers =
     \<lparr> noEvent = (\<lambda>s. s), onMessage = (\<lambda>b s. False), onAttachment = (\<lambda>p s. False) \<rparr>"

definition sample_request :: compose_request where
  "sample_request =
     \<lparr> message = None, attachments = None, armored = js ''abc'', sender = js ''a@b'',
       to = [js ''c@d''], cc = None, subject = js ''s'', quota = None, pgpMIME = False \<rparr>"

text \<open>Sample trees: an attachment three containers deep, between two others; two text
  parts; one html part.\<close>

definition nested_tree :: "part list" where
  "nested_tree =
     [Part (js ''signed'') None
        (Arr [Part (js ''attachment'') (Some (js ''a'')) (Buf [1]),
              Part (js ''signed'') None
                (Arr [Part (js ''signed'') None
                        (Arr [Part (js ''attachment'') (Some (js ''b'')) (Buf [2])])])]),
      Part (js ''attachment'') (Some (js ''c'')) (Buf [3])]"

definition text_tree :: "part list" where
  "text_tree = [Part (js ''text'') None (Str (js ''a'')), Part (js ''text'') None (Str (js ''b''))]"

definition html_tree :: "part list" where
  "html_tree = [Part (js ''html'') None (Str (js ''x''))]"

text \<open>
  A tree with two html parts and two text parts at different depths, and a choice of
  collaborators whose sanitizer and converters mark what they are given.
\<close>

definition mixed_tree :: "part list" where
  "mixed_tree =
     [Part (js ''signed'') None
        (Arr [Part (js ''text'') None (Str (js ''t'')),
              Part (js ''html'') None (Str (js ''<b>h</b>'')),
              Part (js ''attachment'') (Some (js ''f'')) (Buf [7])]),
      Part (js ''html'') None (Str (js ''<i>k</i>'')),
      Part (js ''signed'') None (Arr [Part (js ''text'') None (Str (js ''u''))])]"

definition marking_collab :: collab where
  "marking_collab =
     \<lparr> mailreader_parse = (\<lambda>raw. None),
       sanitizeHTML = (\<lambda>s. js ''S:'' @ s),
       text2autoLinkHtml = (\<lambda>x. js ''L:'' @ string_of_content x),
       html2text = (\<lambda>x. js ''T:'' @ string_of_content x),
       encodeHTML = (\<lambda>fn. case fn of None \<Rightarrow> js ''undefined'' | Some s \<Rightarrow> s),
       ab2str = (\<lambda>b. case b of None \<Rightarrow> [] | Some bs \<Rightarrow> map ucast bs),
       toString = (\<lambda>x. js ''?''),
       byteCount = utf8_length,
       getHash = (\<lambda>i. replicate (Suc i) 0x61),
       build = (\<lambda>n. js ''MIME'') \<rparr>"

section \<open>The transcoding\<close>

lemma unat_of_nat16: "n < 65536 \<Longrightarrow> unat (of_nat n :: 16 word) = n"
  by (simp add: unat_of_nat)

lemma unat_hex_digit: "d < 16 \<Longrightarrow> unat (hex_digit d) = (if d < 10 then 48 + d else 55 + d)"
proof -
  assume d: "d < 16"
  have "unat (of_nat (0x30 + d) :: 16 word) = 0x30 + d"
    using d by (intro unat_of_nat16) simp
  moreover have "unat (of_nat (0x41 + (d - 10)) :: 16 word) = 0x41 + (d - 10)"
    using d by (intro unat_of_nat16) simp
  ultimately show ?thesis unfolding hex_digit_def using d by auto
qed

lemma unescapedSet_ascii: "unescapedSet c \<Longrightarrow> c \<noteq> 0x25 \<and> c < 0x80"
  unfolding unescapedSet_def by (auto simp: word_le_nat_alt word_less_nat_alt)

lemma hex_value_hex_digit: "d < 16 \<Longrightarrow> hex_value (hex_digit d) = Some d"
  unfolding hex_value_def by (auto simp: word_le_nat_alt unat_hex_digit)

lemma hex_digit_not_u: "d < 16 \<Longrightarrow> hex_digit d \<noteq> 0x75"
proof
  assume d: "d < 16" and e: "hex_digit d = 0x75"
  have "unat (hex_digit d) = 0x75" by (simp add: e)
  then show False using d by (simp add: unat_hex_digit split: if_splits)
qed

lemma unescape_percent_octet:
  assumes "n < 256"
  shows "unescape (percent_octet n @ r) = of_nat n # unescape r"
proof -
  have d: "n div 16 < 16" "n mod 16 < 16" using assms by auto
  have "parse_hex 0 [hex_digit (n div 16), hex_digit (n mod 16)] = Some n"
    using d by (simp add: hex_value_hex_digit)
  then show ?thesis
    using hex_digit_not_u[OF d(1)] by (simp add: percent_octet_def)
qed

lemma unescape_octets:
  "\<forall>n\<in>set ns. n < 256 \<Longrightarrow>
   unescape (concat (map percent_octet ns) @ r) = map of_nat ns @ unescape r"
  by (induction ns) (simp_all add: unescape_percent_octet)

lemma utf8_octets_bound: "cp < 0x110000 \<Longrightarrow> \<forall>n\<in>set (utf8_octets cp). n < 256"
  unfolding utf8_octets_def by auto

lemma surrogate_pair_bound:
  "is_leading_surrogate c \<Longrightarrow> is_trailing_surrogate d \<Longrightarrow>
   UTF16SurrogatePairToCodePoint c d < 0x110000"
  unfolding is_leading_surrogate_def is_trailing_surrogate_def UTF16SurrogatePairToCodePoint_def
  by (auto simp: word_le_nat_alt)

lemma unat16_bound: "unat (c :: 16 word) < 0x110000"
  using unsigned_less[of c, where ?'a = nat] by simp

text \<open>A string of ASCII characters is encoded, and unescaping gives it back.\<close>

lemma encode_ascii:
  "\<forall>c\<in>set s. c < 0x80 \<Longrightarrow> \<exists>r. encodeURIComponent s = Inr r \<and> unescape r = s"
proof (induction s)
  case Nil
  then show ?case by simp
next
  case (Cons c cs)
  then obtain r where r: "encodeURIComponent cs = Inr r" "unescape r = cs" by auto
  have c: "c < 0x80" using Cons.prems by simp
  show ?case
  proof (cases "unescapedSet c")
    case True
    then show ?thesis using r unescapedSet_ascii[OF True] by simp
  next
    case False
    have n: "unat c < 0x80" using c by (simp add: word_less_nat_alt)
    have s: "\<not> is_trailing_surrogate c" "\<not> is_leading_surrogate c"
      using n by (auto simp: is_trailing_surrogate_def is_leading_surrogate_def word_le_nat_alt)
    have o: "utf8_octets (unat c) = [unat c]" using n by (simp add: utf8_octets_def)
    have "unescape (percent_octet (unat c) @ r) = c # cs"
      using n r by (simp add: unescape_percent_octet)
    then show ?thesis using False s o r by simp
  qed
qed

lemma of_nat_byte: "n < 256 \<Longrightarrow> (of_nat n :: 16 word) < 0x100"
  by (simp add: word_less_nat_alt unat_of_nat16)

lemma unescape_octets_bytes:
  assumes "\<forall>n\<in>set ns. n < 256" and "\<forall>u\<in>set (unescape r). u < 0x100"
  shows "\<forall>u\<in>set (unescape (concat (map percent_octet ns) @ r)). u < 0x100"
  using assms by (auto simp: unescape_octets of_nat_byte)

text \<open>Whatever is encoded, unescaping it gives code units below 256.\<close>

lemma encode_bytes:
  "encodeURIComponent s = Inr r \<Longrightarrow> \<forall>u\<in>set (unescape r). u < 0x100"
proof (induction s arbitrary: r rule: encodeURIComponent.induct)
  case 1
  then show ?case by simp
next
  case (2 c cs)
  show ?case
  proof (cases "unescapedSet c")
    case True
    then obtain r' where r': "encodeURIComponent cs = Inr r'" "r = c # r'"
      using "2.prems" by (auto split: sum.splits)
    have "c < 0x100" using unescapedSet_ascii[OF True] by (simp add: word_less_nat_alt)
    then show ?thesis
      using "2.IH"(1)[OF True r'(1)] r'(2) unescapedSet_ascii[OF True] by simp
  next
    case False
    note nu = this
    have nt: "\<not> is_trailing_surrogate c"
      using "2.prems" nu by (auto split: if_splits)
    show ?thesis
    proof (cases "is_leading_surrogate c")
      case True
      then obtain d ds r' where p: "cs = d # ds" "is_trailing_surrogate d"
        "encodeURIComponent ds = Inr r'"
        "r = concat (map percent_octet (utf8_octets (UTF16SurrogatePairToCodePoint c d))) @ r'"
        using "2.prems" nu nt by (auto split: list.splits if_splits sum.splits)
      have "\<forall>u\<in>set (unescape r'). u < 0x100"
        using "2.IH"(2)[OF nu nt True p(1) p(2) p(3)] .
      then show ?thesis
        unfolding p(4)
        by (intro unescape_octets_bytes utf8_octets_bound surrogate_pair_bound True p(2))
    next
      case False
      then obtain r' where p: "encodeURIComponent cs = Inr r'"
        "r = concat (map percent_octet (utf8_octets (unat c))) @ r'"
        using "2.prems" nu nt by (auto split: sum.splits)
      have "\<forall>u\<in>set (unescape r'). u < 0x100"
        using "2.IH"(3)[OF nu nt False p(1)] .
      then show ?thesis
        unfolding p(2)
        by (intro unescape_octets_bytes utf8_octets_bound unat16_bound)
    qed
  qed
qed

lemma low_byte_mask: "low_byte c = c AND mask 8"
  unfolding low_byte_def by (simp add: mask_eq_exp_minus_1)

lemma low_byte_ascii: "c < 0x80 \<Longrightarrow> low_byte c = c"
proof -
  assume "c < 0x80"
  then have "c < 2 ^ 8" by (simp add: word_less_nat_alt)
  then show ?thesis unfolding low_byte_mask by (rule less_mask_eq)
qed

text \<open>The specification's narrowing is the code unit modulo 256.\<close>

lemma low_byte_mod: "unat (low_byte c) = unat c mod 256"
  unfolding low_byte_mask by (simp add: take_bit_eq_mod unat_mod flip: take_bit_eq_mask)

lemma pseudo_binary_ascii:
  "\<forall>c\<in>set s. c < 0x80 \<Longrightarrow> pseudo_binary s = Inr s"
  using encode_ascii[of s] by (auto simp: pseudo_binary_def)

lemmas transcode_defs =
  pseudo_binary_def unescapedSet_def is_trailing_surrogate_def is_leading_surrogate_def
  utf8_octets_def percent_octet_def hex_digit_def hex_value_def
  UTF16SurrogatePairToCodePoint_def

lemmas sample_defs =
  sample_collab_def passive_handlers_def clearing_handlers_def sample_request_def
  nested_tree_def text_tree_def html_tree_def string_of_content_def

lemmas decode_defs =
  parseMessage_def parseMIME_def parseInline_def parse_callback_def select_body_def
  emit_attachments_def call_onMessage_def call_onAttachment_def invocations_def
  mime_header_test_def legacy_html_test_def is_whitespace_def content_string_def
  prepare_attachment_def buffer_def

lemmas builder_defs =
  buildMail_def buildPGPMail_def buildTextMail_def buildMailWithHeader_def

lemma sample_build: "build (sample_collab parsed) n = js ''MIME''"
  by (simp add: sample_collab_def)

text \<open>Splitting a number into digits to the base 64.\<close>

lemma split_2: "(n::nat) div 0x40 * 0x40 + n mod 0x40 = n"
  by simp

lemma split_3: "(n::nat) div 0x1000 * 0x1000 + n div 0x40 mod 0x40 * 0x40 + n mod 0x40 = n"
proof -
  have d: "n div 0x1000 = n div 0x40 div 0x40"
    by (simp add: div_mult2_eq[symmetric])
  have "n div 0x40 div 0x40 * 0x1000 + n div 0x40 mod 0x40 * 0x40
          = (n div 0x40 div 0x40 * 0x40 + n div 0x40 mod 0x40) * 0x40"
    by (simp only: add_mult_distrib mult.assoc)
  also have "\<dots> = n div 0x40 * 0x40"
    by (simp only: split_2)
  finally show ?thesis
    unfolding d by (simp only: split_2)
qed

lemma split_4:
  "(n::nat) div 0x40000 * 0x40000 + n div 0x1000 mod 0x40 * 0x1000 + n div 0x40 mod 0x40 * 0x40
     + n mod 0x40 = n"
proof -
  have d: "n div 0x40000 = n div 0x40 div 0x1000" "n div 0x1000 = n div 0x40 div 0x40"
    by (simp_all add: div_mult2_eq[symmetric])
  have "n div 0x40 div 0x1000 * 0x40000 + n div 0x40 div 0x40 mod 0x40 * 0x1000
          + n div 0x40 mod 0x40 * 0x40
          = (n div 0x40 div 0x1000 * 0x1000 + n div 0x40 div 0x40 mod 0x40 * 0x40
              + n div 0x40 mod 0x40) * 0x40"
    by (simp only: add_mult_distrib mult.assoc)
  also have "\<dots> = n div 0x40 * 0x40"
    by (simp only: split_3)
  finally show ?thesis
    unfolding d by (simp only: split_2)
qed

lemma utf8_decode_2:
  "x < 32 \<Longrightarrow> y < 64 \<Longrightarrow>
   utf8_decode ((0xC0 + x) # (0x80 + y) # r) = map_option (Cons (x * 0x40 + y)) (utf8_decode r)"
  by (simp add: continuation_def)

lemma utf8_decode_3:
  "x < 16 \<Longrightarrow> y < 64 \<Longrightarrow> z < 64 \<Longrightarrow>
   utf8_decode ((0xE0 + x) # (0x80 + y) # (0x80 + z) # r) =
     map_option (Cons (x * 0x1000 + y * 0x40 + z)) (utf8_decode r)"
  by (simp add: continuation_def)

lemma utf8_decode_4:
  "x < 8 \<Longrightarrow> y < 64 \<Longrightarrow> z < 64 \<Longrightarrow> w < 64 \<Longrightarrow>
   utf8_decode ((0xF0 + x) # (0x80 + y) # (0x80 + z) # (0x80 + w) # r) =
     map_option (Cons (x * 0x40000 + y * 0x1000 + z * 0x40 + w)) (utf8_decode r)"
  by (simp add: continuation_def)

lemma utf8_decode_octets:
  assumes "cp < 0x110000"
  shows "utf8_decode (utf8_octets cp @ r) = map_option (Cons cp) (utf8_decode r)"
proof -
  consider "cp < 0x80" | "0x80 \<le> cp" "cp < 0x800" | "0x800 \<le> cp" "cp < 0x10000"
    | "0x10000 \<le> cp" by linarith
  then show ?thesis
  proof cases
    case 1
    then show ?thesis by (simp add: utf8_octets_def)
  next
    case 2
    have o: "utf8_octets cp = [0xC0 + cp div 0x40, 0x80 + cp mod 0x40]"
      using 2 by (simp add: utf8_octets_def)
    have a: "cp div 0x40 < 32" using 2 by simp
    have e: "cp div 0x40 * 0x40 + cp mod 0x40 = cp" by (rule split_2)
    show ?thesis
      unfolding o using utf8_decode_2[OF a, of "cp mod 0x40" r] by (simp only: e append.simps)
  next
    case 3
    have o: "utf8_octets cp =
        [0xE0 + cp div 0x1000, 0x80 + (cp div 0x40) mod 0x40, 0x80 + cp mod 0x40]"
      using 3 by (simp add: utf8_octets_def)
    have a: "cp div 0x1000 < 16" using 3 by simp
    have e: "cp div 0x1000 * 0x1000 + (cp div 0x40) mod 0x40 * 0x40 + cp mod 0x40 = cp"
      by (rule split_3)
    show ?thesis
      unfolding o
      using utf8_decode_3[OF a, of "(cp div 0x40) mod 0x40" "cp mod 0x40" r]
      by (simp only: e append.simps)
  next
    case 4
    have o: "utf8_octets cp =
        [0xF0 + cp div 0x40000, 0x80 + (cp div 0x1000) mod 0x40,
         0x80 + (cp div 0x40) mod 0x40, 0x80 + cp mod 0x40]"
      using 4 by (simp add: utf8_octets_def)
    have a: "cp div 0x40000 < 8" using assms by simp
    have e: "cp div 0x40000 * 0x40000 + (cp div 0x1000) mod 0x40 * 0x1000
            + (cp div 0x40) mod 0x40 * 0x40 + cp mod 0x40 = cp"
      by (rule split_4)
    show ?thesis
      unfolding o
      using utf8_decode_4[OF a, of "(cp div 0x1000) mod 0x40" "(cp div 0x40) mod 0x40"
          "cp mod 0x40" r]
      by (simp only: e append.simps)
  qed
qed

lemma utf8_decode_concat:
  "\<forall>cp\<in>set cps. cp < 0x110000 \<Longrightarrow> utf8_decode (concat (map utf8_octets cps)) = Some cps"
proof (induction cps)
  case Nil
  then show ?case by simp
next
  case (Cons cp cps)
  then show ?case using utf8_decode_octets[of cp "concat (map utf8_octets cps)"] by simp
qed

lemma code_points_bound:
  "code_points s = Inr cps \<Longrightarrow> \<forall>cp\<in>set cps. cp < 0x110000"
proof (induction s arbitrary: cps rule: code_points.induct)
  case 1
  then show ?case by simp
next
  case (2 c cs)
  then show ?case
    using unat16_bound[of c]
    by (auto split: if_splits list.splits sum.splits simp: surrogate_pair_bound)
qed


lemma encode_Inl:
  "encodeURIComponent s = Inl e \<Longrightarrow> code_points s = Inl e"
proof (induction s rule: encodeURIComponent.induct)
  case 1
  then show ?case by simp
next
  case (2 c cs)
  show ?case
  proof (cases "unescapedSet c")
    case True
    have n: "unat c < 0x80" using unescapedSet_ascii[OF True] by (simp add: word_less_nat_alt)
    have s: "\<not> is_trailing_surrogate c" "\<not> is_leading_surrogate c"
      using n by (auto simp: is_trailing_surrogate_def is_leading_surrogate_def word_le_nat_alt)
    from "2.prems" True have "encodeURIComponent cs = Inl e"
      by (simp split: sum.splits)
    from "2.IH"(1)[OF True this] show ?thesis using s by simp
  next
    case False
    note nu = this
    show ?thesis
    proof (cases "is_trailing_surrogate c")
      case True
      then show ?thesis using "2.prems" nu by simp
    next
      case False
      note nt = this
      show ?thesis
      proof (cases "is_leading_surrogate c")
        case True
        show ?thesis
        proof (cases cs)
          case Nil
          then show ?thesis using "2.prems" nu nt True by simp
        next
          case (Cons d ds)
          show ?thesis
          proof (cases "is_trailing_surrogate d")
            case dt: True
            from "2.prems" nu nt True Cons dt have "encodeURIComponent ds = Inl e"
              by (simp split: sum.splits)
            from "2.IH"(2)[OF nu nt True Cons dt this] show ?thesis
              using nt True Cons dt by simp
          next
            case False
            then show ?thesis using "2.prems" nu nt True Cons by simp
          qed
        qed
      next
        case False
        from "2.prems" nu nt False have "encodeURIComponent cs = Inl e"
          by (simp split: sum.splits)
        from "2.IH"(3)[OF nu nt False this] show ?thesis
          using nt False by simp
      qed
    qed
  qed
qed

lemma encode_Inr:
  "encodeURIComponent s = Inr r \<Longrightarrow>
   \<exists>cps. code_points s = Inr cps \<and> unescape r = map of_nat (concat (map utf8_octets cps))"
proof (induction s arbitrary: r rule: encodeURIComponent.induct)
  case 1
  then show ?case by simp
next
  case (2 c cs)
  show ?case
  proof (cases "unescapedSet c")
    case True
    have n: "unat c < 0x80" using unescapedSet_ascii[OF True] by (simp add: word_less_nat_alt)
    have s: "\<not> is_trailing_surrogate c" "\<not> is_leading_surrogate c"
      using n by (auto simp: is_trailing_surrogate_def is_leading_surrogate_def word_le_nat_alt)
    have o: "utf8_octets (unat c) = [unat c]" using n by (simp add: utf8_octets_def)
    from "2.prems" True obtain r' where r': "encodeURIComponent cs = Inr r'" "r = c # r'"
      by (auto split: sum.splits)
    from "2.IH"(1)[OF True r'(1)] obtain cps where
      c: "code_points cs = Inr cps" "unescape r' = map of_nat (concat (map utf8_octets cps))"
      by blast
    have "code_points (c # cs) = Inr (unat c # cps)" using s c(1) by simp
    moreover have "unescape r = map of_nat (concat (map utf8_octets (unat c # cps)))"
      using r'(2) c(2) o unescapedSet_ascii[OF True] by simp
    ultimately show ?thesis by blast
  next
    case False
    note nu = this
    have nt: "\<not> is_trailing_surrogate c"
      using "2.prems" nu by (auto split: if_splits)
    show ?thesis
    proof (cases "is_leading_surrogate c")
      case True
      then obtain d ds r' where p: "cs = d # ds" "is_trailing_surrogate d"
        "encodeURIComponent ds = Inr r'"
        "r = concat (map percent_octet (utf8_octets (UTF16SurrogatePairToCodePoint c d))) @ r'"
        using "2.prems" nu nt by (auto split: list.splits if_splits sum.splits)
      from "2.IH"(2)[OF nu nt True p(1) p(2) p(3)] obtain cps where
        c: "code_points ds = Inr cps" "unescape r' = map of_nat (concat (map utf8_octets cps))"
        by blast
      have b: "\<forall>n\<in>set (utf8_octets (UTF16SurrogatePairToCodePoint c d)). n < 256"
        by (intro utf8_octets_bound surrogate_pair_bound True p(2))
      have "code_points (c # cs) = Inr (UTF16SurrogatePairToCodePoint c d # cps)"
        using nt True p(1,2) c(1) by simp
      moreover have "unescape r =
          map of_nat (concat (map utf8_octets (UTF16SurrogatePairToCodePoint c d # cps)))"
        unfolding p(4) unescape_octets[OF b] c(2) by simp
      ultimately show ?thesis by blast
    next
      case False
      then obtain r' where p: "encodeURIComponent cs = Inr r'"
        "r = concat (map percent_octet (utf8_octets (unat c))) @ r'"
        using "2.prems" nu nt by (auto split: sum.splits)
      from "2.IH"(3)[OF nu nt False p(1)] obtain cps where
        c: "code_points cs = Inr cps" "unescape r' = map of_nat (concat (map utf8_octets cps))"
        by blast
      have b: "\<forall>n\<in>set (utf8_octets (unat c)). n < 256"
        by (intro utf8_octets_bound unat16_bound)
      have "code_points (c # cs) = Inr (unat c # cps)" using nt False c(1) by simp
      moreover have "unescape r = map of_nat (concat (map utf8_octets (unat c # cps)))"
        unfolding p(2) unescape_octets[OF b] c(2) by simp
      ultimately show ?thesis by blast
    qed
  qed
qed

lemma pseudo_binary_code_points:
  "pseudo_binary s =
     (case code_points s of
        Inl e \<Rightarrow> Inl e
      | Inr cps \<Rightarrow> Inr (map of_nat (concat (map utf8_octets cps))))"
proof (cases "encodeURIComponent s")
  case (Inl e)
  then show ?thesis using encode_Inl[OF Inl] by (simp add: pseudo_binary_def)
next
  case (Inr r)
  from encode_Inr[OF Inr] obtain cps where
    "code_points s = Inr cps" "unescape r = map of_nat (concat (map utf8_octets cps))"
    by blast
  then show ?thesis using Inr by (simp add: pseudo_binary_def)
qed

lemma unat_of_nat_octets:
  "\<forall>n\<in>set ns. n < 256 \<Longrightarrow> map unat (map of_nat ns :: jsstring) = ns"
  by (induction ns) (simp_all add: unat_of_nat16)

lemma utf8_length_ge:
  "code_points s = Inr cps \<Longrightarrow>
   length s + length (filter (\<lambda>c. 0x80 \<le> c) s) \<le> length (concat (map utf8_octets cps))"
proof (induction s arbitrary: cps rule: code_points.induct)
  case 1
  then show ?case by simp
next
  case (2 c cs)
  have nt: "\<not> is_trailing_surrogate c" using "2.prems" by (auto split: if_splits)
  show ?case
  proof (cases "is_leading_surrogate c")
    case True
    then obtain d ds r where p: "cs = d # ds" "is_trailing_surrogate d"
      "code_points ds = Inr r" "cps = UTF16SurrogatePairToCodePoint c d # r"
      using "2.prems" nt by (auto split: list.splits if_splits sum.splits)
    have "0x10000 \<le> UTF16SurrogatePairToCodePoint c d"
      by (simp add: UTF16SurrogatePairToCodePoint_def)
    then have "length (utf8_octets (UTF16SurrogatePairToCodePoint c d)) = 4"
      by (simp add: utf8_octets_def)
    then show ?thesis
      using "2.IH"(1)[OF nt True p(1) p(2) p(3)] p by simp
  next
    case False
    then obtain r where p: "code_points cs = Inr r" "cps = unat c # r"
      using "2.prems" nt by (auto split: sum.splits)
    have "0x80 \<le> c \<Longrightarrow> 2 \<le> length (utf8_octets (unat c))"
      by (auto simp: utf8_octets_def word_le_nat_alt)
    moreover have "1 \<le> length (utf8_octets (unat c))"
      by (simp add: utf8_octets_def)
    ultimately show ?thesis
      using "2.IH"(2)[OF nt False p(1)] p by auto
  qed
qed

text \<open>
  C6 (as stated): the string handed to the parser is the input with every code unit
  narrowed to its low byte. This fails: the code unit 0xE9 is transcoded to the two
  code units 0xC3 0xA9 of its UTF-8 encoding.
\<close>

theorem C6_narrowing_counterexample:
  "pseudo_binary [0xE9] = Inr [0xC3, 0xA9] \<and>
   pseudo_binary [0xE9] \<noteq> Inr (narrow_to_low_bytes [0xE9])"
  by (simp add: transcode_defs narrow_to_low_bytes_def)

text \<open>
  C6 (amended): the string handed to the parser is the UTF-8 encoding of the input, one
  code unit per octet. For every input that is transcoded: every code unit of the
  result is below 256; read as UTF-8 the result gives back the code points of the
  input; its length is at least the length of the input plus the number of input code
  units of 0x80 or more, so an input with such a code unit is never handed over as its
  narrowing to low bytes; and \<open>parseMIME\<close> gives the parser exactly this string. An input
  whose code units are all below 0x80 is handed over unchanged, which is also its
  narrowing, position for position. An input with an unpaired surrogate raises the
  \<open>URIError\<close>, which rejects the call.
\<close>

theorem C6_transcoding:
  "((\<forall>c\<in>set rawText. c < 0x80) \<longrightarrow>
      pseudo_binary rawText = Inr (narrow_to_low_bytes rawText) \<and>
      narrow_to_low_bytes rawText = rawText) \<and>
   (\<forall>raw. pseudo_binary rawText = Inr raw \<longrightarrow>
      (\<forall>u\<in>set raw. u < 0x100) \<and>
      (case code_points rawText of
         Inl e \<Rightarrow> False
       | Inr cps \<Rightarrow> utf8_decode (map unat raw) = Some cps) \<and>
      length rawText + length (filter (\<lambda>c. 0x80 \<le> c) rawText) \<le> length raw \<and>
      ((\<exists>c\<in>set rawText. 0x80 \<le> c) \<longrightarrow> raw \<noteq> narrow_to_low_bytes rawText) \<and>
      parseMIME c h rawText encoding s =
        Inr (parse_callback c h (mailreader_parse c raw) encoding ([], s))) \<and>
   (\<forall>e. pseudo_binary rawText = Inl e \<longrightarrow>
      code_points rawText = Inl e \<and> parseMIME c h rawText encoding s = Inl e)"
proof (intro conjI impI allI)
  assume a: "\<forall>c\<in>set rawText. c < 0x80"
  show n: "narrow_to_low_bytes rawText = rawText"
    unfolding narrow_to_low_bytes_def using a by (simp add: low_byte_ascii map_idI)
  show "pseudo_binary rawText = Inr (narrow_to_low_bytes rawText)"
    unfolding n by (rule pseudo_binary_ascii[OF a])
next
  fix raw
  assume p: "pseudo_binary rawText = Inr raw"
  then obtain r where "encodeURIComponent rawText = Inr r" "raw = unescape r"
    by (auto simp: pseudo_binary_def split: sum.splits)
  then show "\<forall>u\<in>set raw. u < 0x100"
    using encode_bytes by simp
  from p obtain cps where cps: "code_points rawText = Inr cps"
    "raw = map of_nat (concat (map utf8_octets cps))"
    by (auto simp: pseudo_binary_code_points split: sum.splits)
  have b: "\<forall>cp\<in>set cps. cp < 0x110000" using cps(1) by (rule code_points_bound)
  have o: "\<forall>n\<in>set (concat (map utf8_octets cps)). n < 256"
    using b utf8_octets_bound by auto
  have "utf8_decode (map unat raw) = Some cps"
    unfolding cps(2) unat_of_nat_octets[OF o] using b by (rule utf8_decode_concat)
  then show "case code_points rawText of Inl e \<Rightarrow> False
             | Inr cps \<Rightarrow> utf8_decode (map unat raw) = Some cps"
    by (simp add: cps(1))
  show l: "length rawText + length (filter (\<lambda>c. 0x80 \<le> c) rawText) \<le> length raw"
    using utf8_length_ge[OF cps(1)] by (simp add: cps(2))
  show "parseMIME c h rawText encoding s =
        Inr (parse_callback c h (mailreader_parse c raw) encoding ([], s))"
    by (simp add: parseMIME_def p)
  assume "\<exists>c\<in>set rawText. 0x80 \<le> c"
  then have "filter (\<lambda>c. 0x80 \<le> c) rawText \<noteq> []"
    by (simp add: filter_empty_conv)
  then have "length rawText < length raw" using l by (cases "filter (\<lambda>c. 0x80 \<le> c) rawText") auto
  then show "raw \<noteq> narrow_to_low_bytes rawText"
    by (auto simp: narrow_to_low_bytes_def)
next
  fix e
  assume p: "pseudo_binary rawText = Inl e"
  then show "code_points rawText = Inl e"
    by (auto simp: pseudo_binary_code_points split: sum.splits)
  show "parseMIME c h rawText encoding s = Inl e"
    by (simp add: parseMIME_def p)
qed

text \<open>
  C6 (amended) on an ASCII string, on a surrogate pair followed by 0xE9, and on an
  unpaired surrogate.
\<close>

theorem C6_transcoding_witness:
  "list_all (\<lambda>c. c < 0x80) (js ''From: a'') \<and>
   pseudo_binary (js ''From: a'') = Inr (narrow_to_low_bytes (js ''From: a'')) \<and>
   narrow_to_low_bytes (js ''From: a'') = js ''From: a'' \<and>
   pseudo_binary [0xD83D, 0xDE00, 0xE9] = Inr [0xF0, 0x9F, 0x98, 0x80, 0xC3, 0xA9] \<and>
   list_all (\<lambda>u. u < 0x100) [0xF0, 0x9F, 0x98, 0x80, 0xC3, 0xA9 :: code_unit] \<and>
   code_points [0xD83D, 0xDE00, 0xE9] = Inr [0x1F600, 0xE9] \<and>
   utf8_decode [0xF0, 0x9F, 0x98, 0x80, 0xC3, 0xA9] = Some [0x1F600, 0xE9] \<and>
   [0xF0, 0x9F, 0x98, 0x80, 0xC3, 0xA9] \<noteq> narrow_to_low_bytes [0xD83D, 0xDE00, 0xE9] \<and>
   parseMIME (sample_collab (Some html_tree)) (passive_handlers False) [0xD83D, 0xDE00, 0xE9]
     (js ''html'') () =
     Inr (parse_callback (sample_collab (Some html_tree)) (passive_handlers False)
            (mailreader_parse (sample_collab (Some html_tree)) [0xF0, 0x9F, 0x98, 0x80, 0xC3, 0xA9])
            (js ''html'') ([], ())) \<and>
   pseudo_binary [0xD83D] = Inl URIError \<and>
   parseMIME (sample_collab (Some html_tree)) (passive_handlers False) [0xD83D] (js ''html'') ()
     = Inl URIError"
proof -
  have a: "\<forall>c\<in>set (js ''From: a''). c < 0x80" by simp
  have b: "pseudo_binary [0xD83D, 0xDE00, 0xE9] = Inr [0xF0, 0x9F, 0x98, 0x80, 0xC3, 0xA9]"
    by (simp add: transcode_defs)
  have e: "pseudo_binary [0xD83D] = Inl URIError"
    by (simp add: transcode_defs)
  have x: "\<exists>c\<in>set [0xD83D, 0xDE00, 0xE9 :: code_unit]. 0x80 \<le> c" by simp
  have cp: "code_points [0xD83D, 0xDE00, 0xE9] = Inr [0x1F600, 0xE9]"
    by (simp add: transcode_defs)
  note t1 = C6_transcoding[of "js ''From: a''", THEN conjunct1, THEN mp, OF a]
  note t2 = C6_transcoding[of "[0xD83D, 0xDE00, 0xE9]" "sample_collab (Some html_tree)"
      "passive_handlers False" "js ''html''" "()", THEN conjunct2, THEN conjunct1, THEN spec,
      THEN mp, OF b]
  note t3 = C6_transcoding[of "[0xD83D]" "sample_collab (Some html_tree)"
      "passive_handlers False" "js ''html''" "()", THEN conjunct2, THEN conjunct2, THEN spec,
      THEN mp, OF e]
  note bytes = t2[THEN conjunct1]
  note dec = t2[THEN conjunct2, THEN conjunct1]
  note neq = t2[THEN conjunct2, THEN conjunct2, THEN conjunct2, THEN conjunct1, THEN mp, OF x]
  note handed = t2[THEN conjunct2, THEN conjunct2, THEN conjunct2, THEN conjunct2]
  have 3: "utf8_decode [0xF0, 0x9F, 0x98, 0x80, 0xC3, 0xA9] = Some [0x1F600, 0xE9]"
    using dec unfolding cp by simp
  have 2: "list_all (\<lambda>u. u < 0x100) [0xF0, 0x9F, 0x98, 0x80, 0xC3, 0xA9 :: code_unit]"
    using bytes by (simp only: list_all_iff)
  have 0: "list_all (\<lambda>c. c < 0x80) (js ''From: a'')"
    using a by (simp only: list_all_iff)
  show ?thesis
    by (intro conjI 0 t1[THEN conjunct1] t1[THEN conjunct2] b 2 cp 3 neq handed e
        t3[THEN conjunct2])
qed

section \<open>Collecting parts\<close>

lemma filterBodyParts_acc:
  "filterBodyParts ps t acc = acc @ filterBodyParts ps t []"
proof (induction ps arbitrary: acc rule: all_parts.induct)
  case 1
  then show ?case by simp
next
  case (2 ty fn c ps)
  let ?here = "\<lambda>acc. if ty = t then acc @ [Part ty fn c]
                else (case c of Arr cs \<Rightarrow> filterBodyParts cs t acc | _ \<Rightarrow> acc)"
  have here: "?here acc = acc @ ?here []"
  proof (cases c)
    case (Arr cs)
    show ?thesis using "2.IH"(1)[OF Arr, of acc] by (simp add: Arr)
  qed simp_all
  have "filterBodyParts (Part ty fn c # ps) t acc = filterBodyParts ps t (?here acc)"
    by simp
  also have "\<dots> = ?here acc @ filterBodyParts ps t []"
    by (rule "2.IH"(2))
  also have "\<dots> = acc @ (?here [] @ filterBodyParts ps t [])"
    using here by (simp only: append_assoc)
  also have "?here [] @ filterBodyParts ps t [] = filterBodyParts ps t (?here [])"
    by (rule "2.IH"(2)[symmetric])
  also have "\<dots> = filterBodyParts (Part ty fn c # ps) t []"
    by simp
  finally show ?case .
qed

lemma filterBodyParts_Cons:
  "filterBodyParts (Part ty fn c # ps) t [] =
     (if ty = t then [Part ty fn c]
      else (case c of Arr cs \<Rightarrow> filterBodyParts cs t [] | _ \<Rightarrow> [])) @ filterBodyParts ps t []"
proof -
  have "filterBodyParts (Part ty fn c # ps) t [] =
        filterBodyParts ps t (if ty = t then [Part ty fn c]
          else (case c of Arr cs \<Rightarrow> filterBodyParts cs t [] | _ \<Rightarrow> []))"
    by simp
  then show ?thesis by (simp only: filterBodyParts_acc[symmetric])
qed


lemma filterBodyParts_nonempty:
  "p \<in> set (all_parts ps) \<Longrightarrow> ptype p = t \<Longrightarrow> filterBodyParts ps t [] \<noteq> []"
proof (induction ps rule: all_parts.induct)
  case 1
  then show ?case by simp
next
  case (2 ty fn c ps)
  then show ?case
    by (cases c) (auto simp: filterBodyParts_Cons simp del: filterBodyParts.simps)
qed

lemma filterBodyParts_leaves:
  "\<forall>p\<in>set (all_parts ps). ptype p = t \<longrightarrow> \<not> is_container p \<Longrightarrow>
   filterBodyParts ps t [] = filter (\<lambda>p. ptype p = t) (all_parts ps)"
proof (induction ps rule: all_parts.induct)
  case 1
  then show ?case by simp
next
  case (2 ty fn c ps)
  then show ?case
    by (cases c) (auto simp: filterBodyParts_Cons is_container_def simp del: filterBodyParts.simps)
qed

lemma all_parts_nonempty: "p \<in> set (all_parts ps) \<Longrightarrow> ps \<noteq> []"
  by auto

section \<open>Callback invocations\<close>

lemma fst_call_onMessage: "fst (call_onMessage h b r) = fst r @ [OnMessage b]"
  by (simp add: call_onMessage_def)

lemma snd_call_onMessage: "snd (call_onMessage h b r) = onMessage h b (snd r)"
  by (simp add: call_onMessage_def)

lemma messages_append: "messages (xs @ ys) = messages xs @ messages ys"
  by (induction xs rule: messages.induct) simp_all

lemma attachments_emitted_append:
  "attachments_emitted (xs @ ys) = attachments_emitted xs @ attachments_emitted ys"
  by (induction xs rule: attachments_emitted.induct) simp_all

lemma fst_fold_onAttachment:
  "fst (fold (\<lambda>p. call_onAttachment h (f p)) ps r) = fst r @ map (\<lambda>p. OnAttachment (f p)) ps"
  by (induction ps arbitrary: r) (simp_all add: call_onAttachment_def)

lemma snd_fold_onAttachment:
  "\<forall>p s'. \<not> noEvent h s' \<longrightarrow> \<not> noEvent h (onAttachment h p s') \<Longrightarrow> \<not> noEvent h (snd r) \<Longrightarrow>
   \<not> noEvent h (snd (fold (\<lambda>p. call_onAttachment h (f p)) ps r))"
  by (induction ps arbitrary: r) (simp_all add: call_onAttachment_def)

lemma messages_attachments: "messages (map (\<lambda>p. OnAttachment (f p)) ps) = []"
  by (induction ps) simp_all

lemma attachments_emitted_attachments:
  "attachments_emitted (map (\<lambda>p. OnAttachment (f p)) ps) = map f ps"
  by (induction ps) simp_all

lemma fst_emit_attachments:
  "fst (emit_attachments c h ps r) =
     fst r @ map (\<lambda>p. OnAttachment (prepare_attachment c p)) (filterBodyParts ps (js ''attachment'') [])"
  unfolding emit_attachments_def by (rule fst_fold_onAttachment)

lemma select_body_cases:
  "select_body c h ps enc r = r \<or> (\<exists>b. select_body c h ps enc r = call_onMessage h b r)"
  unfolding select_body_def Let_def by auto

lemma select_body_attachments:
  "attachments_emitted (fst (select_body c h ps enc r)) = attachments_emitted (fst r)"
  using select_body_cases[of c h ps enc r]
  by (auto simp: fst_call_onMessage attachments_emitted_append)

lemma select_body_messages:
  "length (messages (fst (select_body c h ps enc ([], s)))) \<le> 1"
  using select_body_cases[of c h ps enc "([], s)"]
  by (auto simp: fst_call_onMessage)

lemma select_body_html:
  "filterBodyParts ps (js ''html'') [] \<noteq> [] \<Longrightarrow>
   select_body c h ps (js ''html'') r =
     call_onMessage h
       (sanitizeHTML c (join ([0x0A] @ js ''<hr>'' @ [0x0A])
          (map (\<lambda>part. content_string c (pcontent part)) (filterBodyParts ps (js ''html'') [])))) r"
  unfolding select_body_def Let_def by simp

lemma select_body_text:
  "filterBodyParts ps (js ''text'') [] \<noteq> [] \<Longrightarrow>
   select_body c h ps (js ''text'') r =
     call_onMessage h
       (join [0x0A, 0x0A]
          (map (\<lambda>part. content_string c (pcontent part)) (filterBodyParts ps (js ''text'') []))) r"
  unfolding select_body_def Let_def by simp


lemma parse_callback_Some:
  "ps \<noteq> [] \<Longrightarrow>
   parse_callback c h (Some ps) enc r =
     (let r1 = emit_attachments c h ps (select_body c h ps enc r)
      in if noEvent h (snd r1) then call_onMessage h [] r1 else r1)"
  unfolding parse_callback_def by simp

lemma parse_callback_attachments:
  "attachments_emitted (fst (parse_callback c h (Some ps) enc ([], s))) =
     map (prepare_attachment c) (filterBodyParts ps (js ''attachment'') [])"
proof (cases "ps = []")
  case True
  then show ?thesis by (simp add: parse_callback_def Let_def fst_call_onMessage)
next
  case False
  show ?thesis
    unfolding parse_callback_Some[OF False] Let_def
    by (simp add: fst_call_onMessage attachments_emitted_append fst_emit_attachments
        select_body_attachments attachments_emitted_attachments)
qed

lemma parse_callback_messages:
  "ps \<noteq> [] \<Longrightarrow> select_body c h ps enc ([], s) = call_onMessage h b ([], s) \<Longrightarrow>
   messages (fst (parse_callback c h (Some ps) enc ([], s))) = [b] \<or>
   messages (fst (parse_callback c h (Some ps) enc ([], s))) = [b, []]"
  unfolding parse_callback_Some Let_def
  by (simp add: fst_call_onMessage messages_append fst_emit_attachments messages_attachments)

lemma parse_callback_empty:
  "parsed = None \<or> parsed = Some [] \<Longrightarrow>
   messages (fst (parse_callback c h parsed enc ([], s))) = (if noEvent h s then [[]] else [])"
  by (auto simp: parse_callback_def Let_def fst_call_onMessage)

lemma parse_callback_messages_gen:
  "ps \<noteq> [] \<Longrightarrow>
   messages (fst (parse_callback c h (Some ps) enc ([], s))) =
     messages (fst (select_body c h ps enc ([], s))) @
     (if noEvent h (snd (emit_attachments c h ps (select_body c h ps enc ([], s))))
      then [[]] else [])"
  unfolding parse_callback_Some Let_def
  by (simp add: fst_call_onMessage messages_append fst_emit_attachments messages_attachments)

lemma parse_callback_two:
  "length (messages (fst (parse_callback c h parsed enc ([], s)))) \<le> 2"
proof (cases "parsed = None \<or> parsed = Some []")
  case True
  then show ?thesis by (simp add: parse_callback_empty)
next
  case False
  then obtain ps where ps: "parsed = Some ps" "ps \<noteq> []" by auto
  show ?thesis
    unfolding ps(1) parse_callback_messages_gen[OF ps(2)]
    using select_body_messages[of c h ps enc s] by simp
qed

lemma parse_callback_unset:
  assumes "\<forall>s'. \<not> noEvent h s'"
  shows "length (messages (fst (parse_callback c h parsed enc ([], s)))) \<le> 1"
proof (cases "parsed = None \<or> parsed = Some []")
  case True
  then show ?thesis by (simp add: parse_callback_empty)
next
  case False
  then obtain ps where ps: "parsed = Some ps" "ps \<noteq> []" by auto
  show ?thesis
    unfolding ps(1) parse_callback_messages_gen[OF ps(2)]
    using select_body_messages[of c h ps enc s] assms by simp
qed

lemma parse_callback_clearing:
  assumes m: "\<forall>b s'. \<not> noEvent h (onMessage h b s')"
    and a: "\<forall>p s'. \<not> noEvent h s' \<longrightarrow> \<not> noEvent h (onAttachment h p s')"
  shows "length (messages (fst (parse_callback c h parsed enc ([], s)))) \<le> 1"
proof (cases "parsed = None \<or> parsed = Some []")
  case True
  then show ?thesis by (simp add: parse_callback_empty)
next
  case False
  then obtain ps where ps: "parsed = Some ps" "ps \<noteq> []" by auto
  from select_body_cases[of c h ps enc "([], s)"]
  show ?thesis
  proof
    assume "select_body c h ps enc ([], s) = ([], s)"
    then show ?thesis
      unfolding ps(1) parse_callback_messages_gen[OF ps(2)] by simp
  next
    assume "\<exists>b. select_body c h ps enc ([], s) = call_onMessage h b ([], s)"
    then obtain b where b: "select_body c h ps enc ([], s) = call_onMessage h b ([], s)" ..
    have "\<not> noEvent h (snd (call_onMessage h b ([], s)))"
      using m by (simp add: snd_call_onMessage)
    then have "\<not> noEvent h (snd (emit_attachments c h ps (call_onMessage h b ([], s))))"
      unfolding emit_attachments_def by (rule snd_fold_onAttachment[OF a])
    then show ?thesis
      unfolding ps(1) parse_callback_messages_gen[OF ps(2)] b
      by (simp add: fst_call_onMessage)
  qed
qed

text \<open>A decode call on the MIME path is the callback on what the parser delivers.\<close>

lemma parseMIME_transcoded:
  "pseudo_binary rawText = Inr raw \<Longrightarrow>
   invocations (parseMIME c h rawText enc s) =
     fst (parse_callback c h (mailreader_parse c raw) enc ([], s))"
  by (simp add: parseMIME_def invocations_def)

lemma invocations_parseMIME:
  "invocations (parseMIME c h rawText enc s) = [] \<or>
   (\<exists>parsed. invocations (parseMIME c h rawText enc s) = fst (parse_callback c h parsed enc ([], s)))"
proof (cases "pseudo_binary rawText")
  case (Inl e)
  then show ?thesis by (simp add: parseMIME_def invocations_def)
next
  case (Inr raw)
  then have "invocations (parseMIME c h rawText enc s) =
               fst (parse_callback c h (mailreader_parse c raw) enc ([], s))"
    by (simp add: parseMIME_def invocations_def)
  then show ?thesis by blast
qed

lemma invocations_parseInline:
  "\<exists>b. invocations (parseInline c h rawText enc s) = [OnMessage b]"
  by (simp add: parseInline_def invocations_def fst_call_onMessage)

section \<open>Body selection and attachments\<close>

lemma has_string_leaf: "has_string p \<Longrightarrow> \<not> is_container p"
  by (auto simp: has_string_def is_container_def split: part_content.splits)

lemma content_string_verbatim:
  "has_string p \<Longrightarrow> content_string c (pcontent p) = string_of_content (pcontent p)"
  by (auto simp: has_string_def content_string_def string_of_content_def
      split: part_content.splits)

lemma string_parts:
  assumes "\<forall>p\<in>set (all_parts ps). ptype p = t \<longrightarrow> has_string p"
  shows "map (\<lambda>part. content_string c (pcontent part)) (filterBodyParts ps t []) =
         map (\<lambda>part. string_of_content (pcontent part))
           (filter (\<lambda>p. ptype p = t) (all_parts ps))"
proof -
  have l: "\<forall>p\<in>set (all_parts ps). ptype p = t \<longrightarrow> \<not> is_container p"
    using assms has_string_leaf by blast
  show ?thesis
    unfolding filterBodyParts_leaves[OF l]
    using assms by (intro map_cong refl content_string_verbatim) simp
qed

lemma parse_callback_preference:
  assumes "H \<in> set (all_parts ps)" and "ptype H = js ''html''"
    and "T \<in> set (all_parts ps)" and "ptype T = js ''text''"
  shows
    "(messages (fst (parse_callback c h (Some ps) (js ''html'') ([], s))) =
        [sanitizeHTML c (join ([0x0A] @ js ''<hr>'' @ [0x0A])
           (map (\<lambda>part. content_string c (pcontent part))
              (filterBodyParts ps (js ''html'') [])))] \<or>
      messages (fst (parse_callback c h (Some ps) (js ''html'') ([], s))) =
        [sanitizeHTML c (join ([0x0A] @ js ''<hr>'' @ [0x0A])
           (map (\<lambda>part. content_string c (pcontent part))
              (filterBodyParts ps (js ''html'') []))), []]) \<and>
     (messages (fst (parse_callback c h (Some ps) (js ''text'') ([], s))) =
        [join [0x0A, 0x0A]
           (map (\<lambda>part. content_string c (pcontent part))
              (filterBodyParts ps (js ''text'') []))] \<or>
      messages (fst (parse_callback c h (Some ps) (js ''text'') ([], s))) =
        [join [0x0A, 0x0A]
           (map (\<lambda>part. content_string c (pcontent part))
              (filterBodyParts ps (js ''text'') [])), []])"
proof -
  have ne: "ps \<noteq> []" using assms(1) by auto
  have hp: "filterBodyParts ps (js ''html'') [] \<noteq> []"
    using assms(1,2) by (rule filterBodyParts_nonempty)
  have tp: "filterBodyParts ps (js ''text'') [] \<noteq> []"
    using assms(3,4) by (rule filterBodyParts_nonempty)
  show ?thesis
    using parse_callback_messages[OF ne select_body_html[OF hp, of c h "([], s)"]]
      parse_callback_messages[OF ne select_body_text[OF tp, of c h "([], s)"]]
    by (rule conjI)
qed

text \<open>
  C3: in a tree that holds an html part and a text part, anywhere, and whose html and
  text parts carry strings (the data model), decoding as html gives \<open>onMessage\<close> the
  sanitized join, with the rule separator, of the contents of all the html parts of
  the tree in depth-first order, and decoding as text gives it the contents of all the
  text parts of the tree in depth-first order, as they are, joined with a blank line.
  Neither body holds a conversion of a part of the other kind. The only other body a
  call can deliver is the empty string of \<open>noEvent\<close>.
\<close>

theorem C3_preference:
  assumes "H \<in> set (all_parts ps)" and "ptype H = js ''html''"
    and "T \<in> set (all_parts ps)" and "ptype T = js ''text''"
    and "\<forall>p\<in>set (all_parts ps). ptype p = js ''html'' \<longrightarrow> has_string p"
    and "\<forall>p\<in>set (all_parts ps). ptype p = js ''text'' \<longrightarrow> has_string p"
  shows
    "(messages (fst (parse_callback c h (Some ps) (js ''html'') ([], s))) =
        [sanitizeHTML c (join ([0x0A] @ js ''<hr>'' @ [0x0A])
           (map (\<lambda>part. string_of_content (pcontent part))
              (filter (\<lambda>p. ptype p = js ''html'') (all_parts ps))))] \<or>
      messages (fst (parse_callback c h (Some ps) (js ''html'') ([], s))) =
        [sanitizeHTML c (join ([0x0A] @ js ''<hr>'' @ [0x0A])
           (map (\<lambda>part. string_of_content (pcontent part))
              (filter (\<lambda>p. ptype p = js ''html'') (all_parts ps)))), []]) \<and>
     (messages (fst (parse_callback c h (Some ps) (js ''text'') ([], s))) =
        [join [0x0A, 0x0A]
           (map (\<lambda>part. string_of_content (pcontent part))
              (filter (\<lambda>p. ptype p = js ''text'') (all_parts ps)))] \<or>
      messages (fst (parse_callback c h (Some ps) (js ''text'') ([], s))) =
        [join [0x0A, 0x0A]
           (map (\<lambda>part. string_of_content (pcontent part))
              (filter (\<lambda>p. ptype p = js ''text'') (all_parts ps))), []])"
  using parse_callback_preference[OF assms(1-4), of c h s]
  unfolding string_parts[OF assms(5)] string_parts[OF assms(6)] .

text \<open>C3 on a tree with two html parts and two text parts, with marking collaborators.\<close>

theorem C3_preference_witness:
  "list_all (\<lambda>p. (ptype p \<noteq> js ''html'' \<and> ptype p \<noteq> js ''text'') \<or> has_string p)
     (all_parts mixed_tree) \<and>
   messages (fst (parse_callback marking_collab (passive_handlers False)
      (Some mixed_tree) (js ''html'') ([], ()))) =
     [js ''S:<b>h</b>'' @ [0x0A] @ js ''<hr>'' @ [0x0A] @ js ''<i>k</i>''] \<and>
   messages (fst (parse_callback marking_collab (passive_handlers False)
      (Some mixed_tree) (js ''text'') ([], ()))) = [js ''t'' @ [0x0A, 0x0A] @ js ''u'']"
proof -
  have H: "Part (js ''html'') None (Str (js ''<b>h</b>'')) \<in> set (all_parts mixed_tree)"
    by (simp add: mixed_tree_def)
  have T: "Part (js ''text'') None (Str (js ''t'')) \<in> set (all_parts mixed_tree)"
    by (simp add: mixed_tree_def)
  have sh: "\<forall>p\<in>set (all_parts mixed_tree). ptype p = js ''html'' \<longrightarrow> has_string p"
    by (simp add: mixed_tree_def has_string_def)
  have st: "\<forall>p\<in>set (all_parts mixed_tree). ptype p = js ''text'' \<longrightarrow> has_string p"
    by (simp add: mixed_tree_def has_string_def)
  have l: "list_all (\<lambda>p. (ptype p \<noteq> js ''html'' \<and> ptype p \<noteq> js ''text'') \<or> has_string p)
     (all_parts mixed_tree)"
    by (simp add: mixed_tree_def has_string_def)
  have n: "\<not> noEvent (passive_handlers False) ()" by (simp add: passive_handlers_def)
  from C3_preference[OF H _ T _ sh st, of marking_collab "passive_handlers False" "()"]
  have "messages (fst (parse_callback marking_collab (passive_handlers False)
      (Some mixed_tree) (js ''html'') ([], ()))) =
     [js ''S:<b>h</b>'' @ [0x0A] @ js ''<hr>'' @ [0x0A] @ js ''<i>k</i>''] \<and>
   messages (fst (parse_callback marking_collab (passive_handlers False)
      (Some mixed_tree) (js ''text'') ([], ()))) = [js ''t'' @ [0x0A, 0x0A] @ js ''u'']"
    by (simp add: sample_defs decode_defs marking_collab_def mixed_tree_def)
  then show ?thesis using l by (rule_tac conjI)
qed

text \<open>
  C8: in a tree whose attachment parts are leaves (the data model: an attachment holds
  bytes, never child parts), the parts given to \<open>onAttachment\<close> are all the attachment
  parts of the tree, at every depth, in depth-first order, each with its file name
  encoded and its bytes turned into a string.
\<close>
theorem C8_attachments:
  assumes "\<forall>p\<in>set (all_parts ps). ptype p = js ''attachment'' \<longrightarrow> \<not> is_container p"
  shows "attachments_emitted (fst (parse_callback c h (Some ps) encoding ([], s))) =
           map (prepare_attachment c)
             (filter (\<lambda>p. ptype p = js ''attachment'') (all_parts ps))"
  unfolding parse_callback_attachments filterBodyParts_leaves[OF assms] ..

text \<open>C8 on a tree with an attachment three containers deep.\<close>
theorem C8_attachments_witness:
  "list_all (\<lambda>p. ptype p \<noteq> js ''attachment'' \<or> \<not> is_container p) (all_parts nested_tree) \<and>
   attachments_emitted (fst (parse_callback (sample_collab None) (passive_handlers False)
      (Some nested_tree) (js ''text'') ([], ()))) =
     [Part (js ''attachment'') (Some (js ''a'')) (Str [1]),
      Part (js ''attachment'') (Some (js ''b'')) (Str [2]),
      Part (js ''attachment'') (Some (js ''c'')) (Str [3])]"
proof -
  have l: "\<forall>p\<in>set (all_parts nested_tree). ptype p = js ''attachment'' \<longrightarrow> \<not> is_container p"
    by (simp add: nested_tree_def is_container_def)
  from C8_attachments[OF l, of "sample_collab None" "passive_handlers False" "js ''text''" "()"]
  show ?thesis
    by (simp add: sample_defs prepare_attachment_def buffer_def is_container_def)
qed




section \<open>The message callback\<close>

text \<open>
  C5 (as stated): \<open>onMessage\<close> is invoked at most once, whatever the handlers. This
  fails for handlers that keep \<open>noEvent\<close> set: with one html part the body is delivered
  and then the empty string.
\<close>
theorem C5_at_most_once_counterexample:
  "messages (invocations (parseMessage (sample_collab (Some html_tree)) (passive_handlers True)
      (js ''From:'') (js ''html'') ())) = [js ''x'', []]"
  by (simp add: sample_defs decode_defs transcode_defs)

text \<open>
  C5 (amended): a decode call invokes \<open>onMessage\<close> at most twice; at most once when the
  handlers never have \<open>noEvent\<close> set, and at most once when the callbacks clear
  \<open>noEvent\<close> (\<open>onMessage\<close> clears it and \<open>onAttachment\<close> does not set it).
\<close>
theorem C5_onMessage_count:
  "length (messages (invocations (parseMessage c h rawText encoding s))) \<le> 2 \<and>
   ((\<forall>s'. \<not> noEvent h s') \<longrightarrow>
      length (messages (invocations (parseMessage c h rawText encoding s))) \<le> 1) \<and>
   ((\<forall>b s'. \<not> noEvent h (onMessage h b s')) \<and>
    (\<forall>p s'. \<not> noEvent h s' \<longrightarrow> \<not> noEvent h (onAttachment h p s')) \<longrightarrow>
      length (messages (invocations (parseMessage c h rawText encoding s))) \<le> 1)"
proof (cases "mime_header_test rawText")
  case True
  then have e: "parseMessage c h rawText encoding s = parseMIME c h rawText encoding s"
    by (simp add: parseMessage_def)
  from invocations_parseMIME[of c h rawText encoding s]
  show ?thesis
  proof
    assume "invocations (parseMIME c h rawText encoding s) = []"
    then show ?thesis unfolding e by simp
  next
    assume "\<exists>parsed. invocations (parseMIME c h rawText encoding s) =
              fst (parse_callback c h parsed encoding ([], s))"
    then obtain parsed where "invocations (parseMIME c h rawText encoding s) =
              fst (parse_callback c h parsed encoding ([], s))" ..
    then show ?thesis
      unfolding e
      using parse_callback_two[of c h parsed encoding s]
        parse_callback_unset[of h c parsed encoding s]
        parse_callback_clearing[of h c parsed encoding s]
      by simp
  qed
next
  case False
  then have e: "parseMessage c h rawText encoding s = parseInline c h rawText encoding s"
    by (simp add: parseMessage_def)
  show ?thesis
    unfolding e using invocations_parseInline[of c h rawText encoding s] by auto
qed

text \<open>C5 (amended) with handlers whose callbacks clear \<open>noEvent\<close>.\<close>
theorem C5_onMessage_count_witness:
  "messages (invocations (parseMessage (sample_collab (Some html_tree)) clearing_handlers
      (js ''From:'') (js ''html'') True)) = [js ''x''] \<and>
   length (messages (invocations (parseMessage (sample_collab (Some html_tree)) clearing_handlers
      (js ''From:'') (js ''html'') True))) \<le> 1"
proof -
  have m: "\<forall>b s'. \<not> noEvent clearing_handlers (onMessage clearing_handlers b s')"
    by (simp add: clearing_handlers_def)
  have a: "\<forall>p s'. \<not> noEvent clearing_handlers s' \<longrightarrow>
             \<not> noEvent clearing_handlers (onAttachment clearing_handlers p s')"
    by (simp add: clearing_handlers_def)
  from C5_onMessage_count[of "sample_collab (Some html_tree)" clearing_handlers
      "js ''From:''" "js ''html''" True] m a
  have "length (messages (invocations (parseMessage (sample_collab (Some html_tree))
      clearing_handlers (js ''From:'') (js ''html'') True))) \<le> 1"
    by blast
  moreover have "messages (invocations (parseMessage (sample_collab (Some html_tree))
      clearing_handlers (js ''From:'') (js ''html'') True)) = [js ''x'']"
    by (simp add: sample_defs decode_defs transcode_defs)
  ultimately show ?thesis by blast
qed

section \<open>The builders\<close>

lemma snd_add_message: "snd (add_message c m st) = snd st + message_bytes c m"
  by (simp add: add_message_def message_bytes_def split: option.splits)

lemma snd_add_attachments:
  "snd (add_attachments as st) = snd st + sum_list (map attachment_size as)"
  by (induction as arbitrary: st) simp_all

lemma snd_add_attachments_with_id:
  "snd (add_attachments_with_id c i as st) = snd st + sum_list (map attachment_size as)"
  by (induction as arbitrary: st i) simp_all

lemma childNodes_ops:
  "childNodes (appendChild x n) = childNodes n @ [x]"
  "childNodes (setContent y n) = childNodes n"
  "childNodes (addHeader hs n) = childNodes n"
  "childNodes (setHeader hs n) = childNodes n"
  "childNodes (MimeBuilder ct) = []"
  by (simp_all add: appendChild_def setContent_def addHeader_def setHeader_def MimeBuilder_def)

text \<open>
  C1 (as stated): the quota \<open>byteCount(m) - 1\<close> always throws. This fails for a message
  of one byte: the quota is then zero, which is no quota, and \<open>buildMail\<close> returns the
  message.
\<close>
theorem C1_quota_boundary_counterexample:
  "byteCount (sample_collab None) (js ''a'') = 1 \<and>
   buildMail (sample_collab None)
     (sample_request\<lparr>message := Some (js ''a''), attachments := Some [],
        quota := Some (int (byteCount (sample_collab None) (js ''a'')) - 1)\<rparr>)
     = Inr (Some (js ''a''))"
  by (simp add: sample_collab_def sample_request_def utf8_length_def transcode_defs
      buildMail_def buildMail_assemble_def add_message_def quota_exceeded_def)

text \<open>
  C1 (amended): for a message \<open>m\<close> with no attachments, \<open>buildMail\<close> with the quota
  \<open>byteCount(m) - 1\<close> throws the \<open>MvError\<close> with code \<open>ENCRYPT_QUOTA_SIZE\<close> when the byte
  count of \<open>m\<close> is not 1 (and \<open>m\<close> is not empty, or counts zero bytes); with the quota
  \<open>byteCount(m)\<close> it returns, for every \<open>m\<close>.
\<close>
theorem C1_quota_boundary:
  assumes "message req = Some m" and "attachments req = None \<or> attachments req = Some []"
  shows "(quota req = Some (int (byteCount c m) - 1) \<and> byteCount c m \<noteq> 1 \<and>
            (m \<noteq> [] \<or> byteCount c m = 0) \<longrightarrow>
          buildMail c req =
            Inl (MvError (js ''Mail content exceeds quota limit.'') (js ''ENCRYPT_QUOTA_SIZE''))) \<and>
         (quota req = Some (int (byteCount c m)) \<longrightarrow>
          buildMail c req =
            Inr (if pgpMIME req then Some (build c (fst (fst (buildMail_assemble c req))))
                 else Some m))"
proof -
  obtain main where a: "buildMail_assemble c req =
      ((main, if m \<noteq> [] then int (byteCount c m) else 0), False)"
    using assms by (cases "m = []") (auto simp: buildMail_assemble_def add_message_def)
  have b: "buildMail c req =
      (if quota_exceeded (quota req) (if m \<noteq> [] then int (byteCount c m) else 0)
       then Inl QuotaExceeded
       else Inr (if pgpMIME req then Some (build c main) else Some m))"
    using assms(1) by (simp add: buildMail_def a)
  have m: "fst (fst (buildMail_assemble c req)) = main" by (simp add: a)
  have over: "quota req = Some (int (byteCount c m) - 1) \<Longrightarrow> byteCount c m \<noteq> 1 \<Longrightarrow>
      m \<noteq> [] \<or> byteCount c m = 0 \<Longrightarrow>
      quota_exceeded (quota req) (if m \<noteq> [] then int (byteCount c m) else 0)"
    by (auto simp: quota_exceeded_def)
  have fits: "quota req = Some (int (byteCount c m)) \<Longrightarrow>
      \<not> quota_exceeded (quota req) (if m \<noteq> [] then int (byteCount c m) else 0)"
    by (auto simp: quota_exceeded_def)
  show ?thesis
    unfolding b m using over fits by (auto simp: QuotaExceeded_def)
qed

text \<open>C1 (amended) on a message of two bytes.\<close>
theorem C1_quota_boundary_witness:
  "byteCount (sample_collab None) (js ''ab'') = 2 \<and>
   buildMail (sample_collab None)
     (sample_request\<lparr>message := Some (js ''ab''), attachments := Some [], quota := Some 1\<rparr>)
     = Inl (MvError (js ''Mail content exceeds quota limit.'') (js ''ENCRYPT_QUOTA_SIZE'')) \<and>
   buildMail (sample_collab None)
     (sample_request\<lparr>message := Some (js ''ab''), attachments := Some [], quota := Some 2\<rparr>)
     = Inr (Some (js ''ab''))"
proof -
  have n: "byteCount (sample_collab None) (js ''ab'') = 2"
    by (simp add: sample_collab_def utf8_length_def transcode_defs)
  from C1_quota_boundary[where c = "sample_collab None" and m = "js ''ab''"
      and req = "sample_request\<lparr>message := Some (js ''ab''), attachments := Some [],
        quota := Some 1\<rparr>"]
    C1_quota_boundary[where c = "sample_collab None" and m = "js ''ab''"
      and req = "sample_request\<lparr>message := Some (js ''ab''), attachments := Some [],
        quota := Some 2\<rparr>"]
  show ?thesis
    using n by (simp add: sample_request_def)
qed

text \<open>
  C2: the \<open>multipart/encrypted\<close> node that \<open>buildPGPMail\<close> assembles has exactly two
  children, in this order:
  the \<open>application/pgp-encrypted\<close> part with the body \<open>Version: 1\<close>, then the
  \<open>application/octet-stream\<close> part named \<open>encrypted.asc\<close> with the armored text as its
  body; and what \<open>buildPGPMail\<close> returns, unless the quota is exceeded, is the
  serialization of that node.
\<close>
theorem C2_children:
  "contentType (fst (buildPGPMail_assemble c req)) =
     Some (js ''multipart/encrypted; protocol='' @ [0x22] @ js ''application/pgp-encrypted''
       @ [0x22] @ js '';'') \<and>
   childNodes (fst (buildPGPMail_assemble c req)) = [pgpHeader, pgpArmored (armored req)] \<and>
   contentType pgpHeader = Some (js ''application/pgp-encrypted'') \<and>
   node_content pgpHeader = Some (js ''Version: 1'') \<and>
   contentType (pgpArmored (armored req)) =
     Some (js ''application/octet-stream; name='' @ [0x22] @ js ''encrypted.asc'' @ [0x22]) \<and>
   node_content (pgpArmored (armored req)) = Some (armored req) \<and>
   buildPGPMail c req =
     (if quota_exceeded (quota req) (snd (buildPGPMail_assemble c req)) then Inl QuotaExceeded
      else Inr (build c (fst (buildPGPMail_assemble c req))))"
proof (intro conjI)
  show "contentType (fst (buildPGPMail_assemble c req)) =
     Some (js ''multipart/encrypted; protocol='' @ [0x22] @ js ''application/pgp-encrypted''
       @ [0x22] @ js '';'')"
    by (simp add: buildPGPMail_assemble_def Let_def appendChild_def setContent_def
        addHeader_def MimeBuilder_def)
  show "childNodes (fst (buildPGPMail_assemble c req)) = [pgpHeader, pgpArmored (armored req)]"
    by (simp add: buildPGPMail_assemble_def Let_def childNodes_ops)
  show "contentType pgpHeader = Some (js ''application/pgp-encrypted'')"
    by (simp add: pgpHeader_def setContent_def setHeader_def MimeBuilder_def)
  show "node_content pgpHeader = Some (js ''Version: 1'')"
    by (simp add: pgpHeader_def setContent_def pgpHeaderContent_def)
  show "contentType (pgpArmored (armored req)) =
     Some (js ''application/octet-stream; name='' @ [0x22] @ js ''encrypted.asc'' @ [0x22])"
    by (simp add: pgpArmored_def setContent_def setHeader_def MimeBuilder_def)
  show "node_content (pgpArmored (armored req)) = Some (armored req)"
    by (simp add: pgpArmored_def setContent_def)
  show "buildPGPMail c req =
     (if quota_exceeded (quota req) (snd (buildPGPMail_assemble c req)) then Inl QuotaExceeded
      else Inr (build c (fst (buildPGPMail_assemble c req))))"
    by (simp add: buildPGPMail_def split: prod.splits)
qed

text \<open>C2 on the sample request.\<close>
theorem C2_children_witness:
  "map contentType (childNodes (fst (buildPGPMail_assemble (sample_collab None) sample_request)))
     = [Some (js ''application/pgp-encrypted''),
        Some (js ''application/octet-stream; name='' @ [0x22] @ js ''encrypted.asc'' @ [0x22])] \<and>
   map node_content (childNodes (fst (buildPGPMail_assemble (sample_collab None) sample_request)))
     = [Some (js ''Version: 1''), Some (js ''abc'')]"
proof -
  from C2_children[of "sample_collab None" sample_request]
  show ?thesis
    by (simp add: sample_request_def)
qed

text \<open>
  C7 (as stated): nothing but the armored body counts in \<open>buildPGPMail\<close>. This fails: an
  armored body of 3 bytes gives a count of 74, and a quota of 3 is exceeded.
\<close>
theorem C7_quota_size_counterexample:
  "int (byteCount (sample_collab None) (armored sample_request)) = 3 \<and>
   snd (buildPGPMail_assemble (sample_collab None) sample_request) = 74 \<and>
   buildPGPMail (sample_collab None) (sample_request\<lparr>quota := Some 3\<rparr>) = Inl QuotaExceeded"
  by (simp add: sample_collab_def sample_request_def utf8_length_def transcode_defs
      buildPGPMail_def buildPGPMail_assemble_def quota_exceeded_def mainContent_def
      pgpHeaderContent_def Let_def)

text \<open>
  C7 (amended): the byte count a builder holds when it tests the quota. For \<open>buildMail\<close>
  and \<open>buildMailWithHeader\<close> it is the byte count of the message (when present and not
  empty) plus the sum of the attachments' declared sizes; for \<open>buildTextMail\<close> it is the
  byte count of the armored body; for \<open>buildPGPMail\<close> it is the byte count of the
  armored body plus those of the fixed explanatory text and of \<open>Version: 1\<close>.
\<close>
theorem C7_quota_size:
  "snd (fst (buildMail_assemble c req)) =
     message_bytes c (message req) +
     sum_list (map attachment_size (attachment_list (attachments req))) \<and>
   snd (buildMailWithHeader_assemble c req) =
     message_bytes c (message req) +
     sum_list (map attachment_size (attachment_list (attachments req))) \<and>
   snd (buildTextMail_assemble c req) = int (byteCount c (armored req)) \<and>
   snd (buildPGPMail_assemble c req) =
     int (byteCount c (armored req)) + int (byteCount c mainContent) +
     int (byteCount c pgpHeaderContent)"
proof (intro conjI)
  show "snd (fst (buildMail_assemble c req)) =
     message_bytes c (message req) +
     sum_list (map attachment_size (attachment_list (attachments req)))"
    by (cases "attachments req")
      (simp_all add: buildMail_assemble_def attachment_list_def snd_add_message
        snd_add_attachments Let_def)
  show "snd (buildMailWithHeader_assemble c req) =
     message_bytes c (message req) +
     sum_list (map attachment_size (attachment_list (attachments req)))"
    by (cases "attachments req")
      (simp_all add: buildMailWithHeader_assemble_def attachment_list_def snd_add_message
        snd_add_attachments_with_id Let_def)
  show "snd (buildTextMail_assemble c req) = int (byteCount c (armored req))"
    by (simp add: buildTextMail_assemble_def Let_def)
  show "snd (buildPGPMail_assemble c req) =
     int (byteCount c (armored req)) + int (byteCount c mainContent) +
     int (byteCount c pgpHeaderContent)"
    by (simp add: buildPGPMail_assemble_def Let_def)
qed

text \<open>C7 (amended) on a message of 2 bytes with attachments of sizes 3 and 40.\<close>
theorem C7_quota_size_witness:
  "snd (fst (buildMail_assemble (sample_collab None)
     (sample_request\<lparr>message := Some (js ''ab''),
        attachments := Some [\<lparr>attachment_name = js ''f'', attachment_content = js ''xyz'',
                                attachment_size = 3\<rparr>,
                             \<lparr>attachment_name = js ''g'', attachment_content = js ''x'',
                                attachment_size = 40\<rparr>]\<rparr>))) = 45 \<and>
   snd (buildTextMail_assemble (sample_collab None) sample_request) = 3"
proof -
  have n: "byteCount (sample_collab None) (js ''ab'') = 2"
       "byteCount (sample_collab None) (js ''abc'') = 3"
    by (simp_all add: sample_collab_def utf8_length_def transcode_defs)
  from C7_quota_size[of "sample_collab None" "sample_request\<lparr>message := Some (js ''ab''),
        attachments := Some [\<lparr>attachment_name = js ''f'', attachment_content = js ''xyz'',
                                attachment_size = 3\<rparr>,
                             \<lparr>attachment_name = js ''g'', attachment_content = js ''x'',
                                attachment_size = 40\<rparr>]\<rparr>"]
    C7_quota_size[of "sample_collab None" sample_request]
  show ?thesis
    using n by (simp add: sample_request_def message_bytes_def attachment_list_def)
qed

text \<open>
  C10: with the quota absent or zero, each of the four builders returns its result,
  whatever the byte count.
\<close>
theorem C10_no_quota:
  assumes "quota req = None \<or> quota req = Some 0"
  shows "buildMail c req =
           Inr (if snd (buildMail_assemble c req) \<or> pgpMIME req
                then Some (build c (fst (fst (buildMail_assemble c req))))
                else message req) \<and>
         buildPGPMail c req = Inr (build c (fst (buildPGPMail_assemble c req))) \<and>
         buildTextMail c req = Inr (build c (fst (buildTextMail_assemble c req))) \<and>
         buildMailWithHeader c req = Inr (build c (fst (buildMailWithHeader_assemble c req)))"
proof -
  have q: "\<And>n. \<not> quota_exceeded (quota req) n"
    using assms by (auto simp: quota_exceeded_def)
  show ?thesis
    by (simp add: builder_defs q split: prod.splits)
qed

text \<open>C10 with a zero quota, an absent quota and an attachment of a million bytes.\<close>
theorem C10_no_quota_witness:
  "buildMail (sample_collab None)
     (sample_request\<lparr>message := Some (js ''ab''), quota := Some 0\<rparr>) = Inr (Some (js ''ab'')) \<and>
   buildPGPMail (sample_collab None) (sample_request\<lparr>quota := Some 0\<rparr>) = Inr (js ''MIME'') \<and>
   buildTextMail (sample_collab None) (sample_request\<lparr>quota := None\<rparr>) = Inr (js ''MIME'') \<and>
   buildMailWithHeader (sample_collab None)
     (sample_request\<lparr>attachments := Some [\<lparr>attachment_name = js ''f'',
        attachment_content = js ''xyz'', attachment_size = 1000000\<rparr>], quota := Some 0\<rparr>)
     = Inr (js ''MIME'')"
proof (intro conjI)
  show "buildMail (sample_collab None)
     (sample_request\<lparr>message := Some (js ''ab''), quota := Some 0\<rparr>) = Inr (Some (js ''ab''))"
    using C10_no_quota[of "sample_request\<lparr>message := Some (js ''ab''), quota := Some 0\<rparr>"
      "sample_collab None"]
    by (simp add: sample_request_def buildMail_assemble_def)
  show "buildPGPMail (sample_collab None) (sample_request\<lparr>quota := Some 0\<rparr>) = Inr (js ''MIME'')"
    using C10_no_quota[of "sample_request\<lparr>quota := Some 0\<rparr>" "sample_collab None"]
    by (simp add: sample_build)
  show "buildTextMail (sample_collab None) (sample_request\<lparr>quota := None\<rparr>) = Inr (js ''MIME'')"
    using C10_no_quota[of "sample_request\<lparr>quota := None\<rparr>" "sample_collab None"]
    by (simp add: sample_build)
  show "buildMailWithHeader (sample_collab None)
     (sample_request\<lparr>attachments := Some [\<lparr>attachment_name = js ''f'',
        attachment_content = js ''xyz'', attachment_size = 1000000\<rparr>], quota := Some 0\<rparr>)
     = Inr (js ''MIME'')"
    using C10_no_quota[of "sample_request\<lparr>attachments := Some [\<lparr>attachment_name = js ''f'',
        attachment_content = js ''xyz'', attachment_size = 1000000\<rparr>], quota := Some 0\<rparr>"
      "sample_collab None"]
    by (simp add: sample_build)
qed

section \<open>The round trip of a plain message\<close>

lemma buildMail_plain:
  assumes "message req = Some m" and "attachments req = Some []"
    and "quota req = None" and "\<not> pgpMIME req"
  shows "buildMail c req = Inr (Some m)"
  using assms
  by (simp add: buildMail_def buildMail_assemble_def add_message_def quota_exceeded_def
      Let_def split: prod.splits)

text \<open>
  C4 (as stated): every plain-text message with no multipart markers comes back
  unchanged. This fails for \<open>a<br>b\<close>: \<open>buildMail\<close> returns it as it is, and the
  decoder takes it for legacy HTML and delivers its conversion to plain text.
\<close>
theorem C4_roundtrip_counterexample:
  "buildMail (sample_collab None)
     (sample_request\<lparr>message := Some (js ''a<br>b''), attachments := Some []\<rparr>)
     = Inr (Some (js ''a<br>b'')) \<and>
   parseMessage (sample_collab None) (passive_handlers False) (js ''a<br>b'') (js ''text'') ()
     = Inr ([OnMessage (js ''ab'')], ()) \<and>
   js ''ab'' \<noteq> js ''a<br>b''"
  by (simp add: sample_defs decode_defs buildMail_def buildMail_assemble_def add_message_def
      quota_exceeded_def Let_def)

text \<open>
  C4 (amended): for a message that does not start with a MIME header (the test of line
  19) and holds none of the legacy HTML tags (the test of line 76), \<open>buildMail\<close> with no
  attachments, no quota and no \<open>pgpMIME\<close> returns the message itself, and decoding
  that as text invokes \<open>onMessage\<close> once, with the message unchanged.
\<close>
theorem C4_roundtrip:
  assumes "message req = Some m" and "attachments req = Some []"
    and "quota req = None" and "\<not> pgpMIME req"
    and "\<not> mime_header_test m" and "\<not> legacy_html_test m"
  shows "buildMail c req = Inr (Some m) \<and>
         parseMessage c h m (js ''text'') s = Inr ([OnMessage m], onMessage h m s)"
proof
  show "buildMail c req = Inr (Some m)"
    using assms(1-4) by (rule buildMail_plain)
  show "parseMessage c h m (js ''text'') s = Inr ([OnMessage m], onMessage h m s)"
    using assms(5,6) by (simp add: parseMessage_def parseInline_def call_onMessage_def)
qed

text \<open>C4 (amended) on the message \<open>Hello\<close>.\<close>
theorem C4_roundtrip_witness:
  "mime_header_test (js ''Hello'') = False \<and> legacy_html_test (js ''Hello'') = False \<and>
   buildMail (sample_collab None)
     (sample_request\<lparr>message := Some (js ''Hello''), attachments := Some []\<rparr>)
     = Inr (Some (js ''Hello'')) \<and>
   parseMessage (sample_collab None) (passive_handlers False) (js ''Hello'') (js ''text'') ()
     = Inr ([OnMessage (js ''Hello'')], ())"
proof -
  have a: "\<not> mime_header_test (js ''Hello'')"
    by (simp add: mime_header_test_def is_whitespace_def)
  have b: "\<not> legacy_html_test (js ''Hello'')"
    by (simp add: legacy_html_test_def)
  from C4_roundtrip[where req = "sample_request\<lparr>message := Some (js ''Hello''), attachments := Some []\<rparr>"
      and m = "js ''Hello''" and c = "sample_collab None" and h = "passive_handlers False"
      and s = "()", OF _ _ _ _ a b]
  show ?thesis using a b
    by (simp add: sample_request_def passive_handlers_def)
qed

end
